theory Spec2Isabelle
  imports Complex_Main
begin

section \<open>JavaScript primitives used by the view\<close>

text \<open>
  The amounts of the recipe and the timestamps are whole numbers, of seconds and of milliseconds,
  modelled as \<open>int\<close>. A number that need not be whole is a rational. Strings are lists of
  bytes, the UTF-8 form of the strings of the program.
\<close>

text \<open>The decimal digit of a value below ten.\<close>

definition digit_char :: "nat \<Rightarrow> char" where
  "digit_char d = ''0123456789'' ! d"

text \<open>\<open>String(n)\<close> and template interpolation of a non-negative whole number.\<close>

fun nat_to_string :: "nat \<Rightarrow> string" where
  "nat_to_string n =
     (if n < 10 then [digit_char n] else nat_to_string (n div 10) @ [digit_char (n mod 10)])"

declare nat_to_string.simps [simp del]

text \<open>\<open>String(n)\<close> of a whole number: a minus sign before the digits of a negative one.\<close>

definition number_to_string :: "int \<Rightarrow> string" where
  "number_to_string i =
     (if i < 0 then CHR ''-'' # nat_to_string (nat (- i)) else nat_to_string (nat i))"

text \<open>The remainder operator \<open>%\<close> of JavaScript: the result takes the sign of the dividend.\<close>

definition js_rem :: "int \<Rightarrow> int \<Rightarrow> int" where
  "js_rem a b = sgn a * (\<bar>a\<bar> mod \<bar>b\<bar>)"

text \<open>
  The same operator on numbers that need not be whole: the quotient is truncated towards zero.
\<close>

definition js_rem_number :: "rat \<Rightarrow> rat \<Rightarrow> rat" where
  "js_rem_number a b = a - b * of_int (if a / b < 0 then \<lceil>a / b\<rceil> else \<lfloor>a / b\<rfloor>)"

text \<open>
  \<open>String(x)\<close> of a number that need not be whole: the whole part, and for a fraction a point
  and the digits of its decimal expansion, at most seventeen of them. This is what JavaScript
  prints for a number with a short exact decimal expansion, such as 1.5 or 0.25.
\<close>

fun fraction_digits :: "nat \<Rightarrow> rat \<Rightarrow> string" where
  "fraction_digits 0 r = []"
| "fraction_digits (Suc k) r =
     (if r = 0 then []
      else digit_char (nat \<lfloor>r * 10\<rfloor>) # fraction_digits k (r * 10 - of_int \<lfloor>r * 10\<rfloor>))"

definition js_number_to_string :: "rat \<Rightarrow> string" where
  "js_number_to_string x =
     (let a = \<bar>x\<bar>; w = \<lfloor>a\<rfloor>; f = a - of_int w
      in (if x < 0 then ''-'' else []) @ nat_to_string (nat w) @
         (if f = 0 then [] else CHR ''.'' # fraction_digits 17 f))"

text \<open>\<open>str.padStart(n, c)\<close> for a one-character filler.\<close>

definition padStart :: "nat \<Rightarrow> char \<Rightarrow> string \<Rightarrow> string" where
  "padStart n c str = replicate (n - length str) c @ str"

section \<open>The two duration formatters\<close>

text \<open>
  \<open>formatTime(time, showSeconds = false)\<close>: \<open>Math.floor\<close> of a quotient is \<open>div\<close> on
  \<open>int\<close>, which rounds down.
\<close>

definition formatTime :: "int \<Rightarrow> bool \<Rightarrow> string" where
  "formatTime time showSeconds =
     (let hours = time div 3600;
          minutes = js_rem time 3600 div 60;
          seconds = js_rem time 60
      in if hours > 0 then
           number_to_string hours @ ''h '' @ number_to_string minutes @ ''m'' @
             (if showSeconds then '' '' @ number_to_string seconds @ ''s'' else '''')
         else if minutes > 0 then
           number_to_string minutes @ ''m'' @
             (if showSeconds then '' '' @ number_to_string seconds @ ''s'' else '''')
         else number_to_string seconds @ ''s'')"

text \<open>
  \<open>formatTimeForTimer(time)\<close>, the formatter of the live countdown, for any number: the
  hours and the minutes go through \<open>Math.floor\<close>, the seconds \<open>time % 60\<close> do not.
\<close>

definition formatTimeForTimer :: "rat \<Rightarrow> string" where
  "formatTimeForTimer time =
     (let hours = \<lfloor>time / 3600\<rfloor>;
          minutes = \<lfloor>js_rem_number time 3600 / 60\<rfloor>;
          seconds = js_rem_number time 60
      in if hours > 0 then
           number_to_string hours @ '':'' @ padStart 2 (CHR ''0'') (number_to_string minutes) @
             '':'' @ padStart 2 (CHR ''0'') (js_number_to_string seconds)
         else number_to_string minutes @ '':'' @
           padStart 2 (CHR ''0'') (js_number_to_string seconds))"

section \<open>Files of the vault\<close>

text \<open>
  A \<open>TFile\<close> of the host, with the three properties the view reads: \<open>name\<close> (with
  extension), \<open>basename\<close> (without) and \<open>extension\<close>. The children of a folder are files
  or folders.
\<close>

record tfile =
  name :: string
  basename :: string
  extension :: string

datatype tabstract_file = TFile tfile | TFolder string

section \<open>The recipe model\<close>

text \<open>
  The classes \<open>Ingredient\<close>, \<open>Cookware\<close>, \<open>Timer\<close> and \<open>Recipe\<close> come from the parser
  library. An absent (\<open>undefined\<close> or \<open>null\<close>) property is \<open>None\<close>. The amount of an
  ingredient or of a cookware item is kept in its \<open>String(amount)\<close> form, the only way the
  view reads it; the amount of a timer is a number of seconds.
\<close>

record ingredient =
  ing_name :: "string option"
  ing_amount :: "string option"
  ing_units :: "string option"

record cookware =
  cw_name :: "string option"
  cw_amount :: "string option"

record timer =
  tm_name :: "string option"
  tm_amount :: "int option"
  tm_units :: "string option"

text \<open>
  A part of a step: a string, an instance of one of the three classes, or any other object.
\<close>

datatype part =
    PText string
  | PIngredient ingredient
  | PCookware cookware
  | PTimer timer
  | POther

text \<open>A step carries its parts under \<open>text\<close> or under \<open>line\<close>, and the image bound to it.\<close>

record step =
  st_text :: "part list option"
  st_line :: "part list option"
  st_image :: "tfile option"

record recipe =
  ingredients :: "ingredient list"
  cookware :: "cookware list"
  timers :: "timer list"
  steps :: "step list"
  recipeImage :: "tfile option"

text \<open>
  Modelled from the spec: \<open>recipe.calculateTotalTime()\<close> belongs to the parser library, whose
  code is not part of the repository. The computed total time is the sum of all top-level timer
  amounts in the aggregate list, a single number of seconds (a timer without an amount adds
  nothing).
\<close>

definition calculateTotalTime :: "recipe \<Rightarrow> int" where
  "calculateTotalTime r =
     sum_list (map (\<lambda>t. case tm_amount t of None \<Rightarrow> 0 | Some a \<Rightarrow> a) (timers r))"

section \<open>Binding sibling images\<close>

text \<open>\<open>str.split(c)\<close> for a one-character separator: never an empty result.\<close>

fun split_on :: "char \<Rightarrow> string \<Rightarrow> string list" where
  "split_on c [] = [[]]"
| "split_on c (x # xs) =
     (if x = c then [] # split_on c xs
      else (case split_on c xs of [] \<Rightarrow> [[x]] | y # ys \<Rightarrow> (x # y) # ys))"

text \<open>\<open>str.startsWith(p)\<close>.\<close>

definition startsWith :: "string \<Rightarrow> string \<Rightarrow> bool" where
  "startsWith str p = (take (length p) str = p)"

text \<open>
  The white space and the line terminators that \<open>parseInt\<close> skips, in UTF-8: TAB, LF, VT,
  FF, CR, SP, U+00A0, U+1680, U+2000 to U+200A, U+2028, U+2029, U+202F, U+205F, U+3000 and
  U+FEFF.
\<close>

definition whiteSpaceCodes :: "string list" where
  "whiteSpaceCodes =
     [[CHR 0x09], [CHR 0x0A], [CHR 0x0B], [CHR 0x0C], [CHR 0x0D], [CHR 0x20],
      [CHR 0xC2, CHR 0xA0], [CHR 0xE1, CHR 0x9A, CHR 0x80],
      [CHR 0xE2, CHR 0x80, CHR 0x80], [CHR 0xE2, CHR 0x80, CHR 0x81],
      [CHR 0xE2, CHR 0x80, CHR 0x82], [CHR 0xE2, CHR 0x80, CHR 0x83],
      [CHR 0xE2, CHR 0x80, CHR 0x84], [CHR 0xE2, CHR 0x80, CHR 0x85],
      [CHR 0xE2, CHR 0x80, CHR 0x86], [CHR 0xE2, CHR 0x80, CHR 0x87],
      [CHR 0xE2, CHR 0x80, CHR 0x88], [CHR 0xE2, CHR 0x80, CHR 0x89],
      [CHR 0xE2, CHR 0x80, CHR 0x8A], [CHR 0xE2, CHR 0x80, CHR 0xA8],
      [CHR 0xE2, CHR 0x80, CHR 0xA9], [CHR 0xE2, CHR 0x80, CHR 0xAF],
      [CHR 0xE2, CHR 0x81, CHR 0x9F], [CHR 0xE3, CHR 0x80, CHR 0x80],
      [CHR 0xEF, CHR 0xBB, CHR 0xBF]]"

text \<open>The number of bytes of the white space character at the head of a string, 0 without one.\<close>

definition leadingWhiteSpace :: "string \<Rightarrow> nat" where
  "leadingWhiteSpace str =
     (case find (\<lambda>p. take (length p) str = p) whiteSpaceCodes of
        None \<Rightarrow> 0
      | Some p \<Rightarrow> length p)"

fun skipWhiteSpace :: "string \<Rightarrow> string" where
  "skipWhiteSpace [] = []"
| "skipWhiteSpace (c # cs) =
     (case leadingWhiteSpace (c # cs) of
        0 \<Rightarrow> c # cs
      | Suc k \<Rightarrow> skipWhiteSpace (drop k cs))"

text \<open>
  \<open>parseInt(str)\<close> without a radix: leading white space is skipped, one sign is read, a
  prefix \<open>0x\<close> or \<open>0X\<close> selects base sixteen, and the longest run of digits of the base
  is the value; anything after it is ignored. With no digit the result is \<open>NaN\<close>, here
  \<open>None\<close>.
\<close>

definition digitValue :: "char \<Rightarrow> nat option" where
  "digitValue c =
     (let n = (of_char c :: nat)
      in if 48 \<le> n \<and> n \<le> 57 then Some (n - 48)
         else if 97 \<le> n \<and> n \<le> 102 then Some (n - 87)
         else if 65 \<le> n \<and> n \<le> 70 then Some (n - 55)
         else None)"

definition radixDigit :: "nat \<Rightarrow> char \<Rightarrow> nat option" where
  "radixDigit r c = (case digitValue c of None \<Rightarrow> None | Some d \<Rightarrow> if d < r then Some d else None)"

definition digitsValue :: "nat \<Rightarrow> string \<Rightarrow> nat" where
  "digitsValue r ds = foldl (\<lambda>a c. a * r + (case radixDigit r c of None \<Rightarrow> 0 | Some d \<Rightarrow> d)) 0 ds"

definition parseInt :: "string \<Rightarrow> int option" where
  "parseInt str =
     (let s1 = skipWhiteSpace str;
          neg = (take 1 s1 = ''-'');
          s2 = (if take 1 s1 = ''-'' \<or> take 1 s1 = ''+'' then drop 1 s1 else s1);
          hex = (take 2 s2 = ''0x'' \<or> take 2 s2 = ''0X'');
          r = (if hex then 16 else 10);
          s3 = (if hex then drop 2 s2 else s2);
          ds = takeWhile (\<lambda>c. radixDigit r c \<noteq> None) s3
      in if ds = [] then None
         else Some ((if neg then - 1 else 1) * int (digitsValue r ds)))"

text \<open>
  The filter that selects \<open>otherFiles\<close> among the children of the folder of the document:
  a file, whose base name is that of the document or starts with it and a dot, and which is not
  the document itself.
\<close>

fun isOtherFile :: "tfile \<Rightarrow> tabstract_file \<Rightarrow> bool" where
  "isOtherFile doc (TFolder d) = False"
| "isOtherFile doc (TFile f) =
     ((basename f = basename doc \<or> startsWith (basename f) (basename doc @ ''.''))
      \<and> name f \<noteq> name doc)"

text \<open>
  \<open>this.file?.parent?.children.filter(...) || []\<close>: no document, or a document without a
  parent folder, gives no file.
\<close>

fun otherFiles :: "tfile option \<Rightarrow> tabstract_file list option \<Rightarrow> tfile list" where
  "otherFiles None chn = []"
| "otherFiles (Some doc) None = []"
| "otherFiles (Some doc) (Some chn) =
     concat (map (\<lambda>a. case a of TFile f \<Rightarrow> [f] | TFolder d \<Rightarrow> []) (filter (isOtherFile doc) chn))"

definition acceptedExtension :: "tfile \<Rightarrow> bool" where
  "acceptedExtension f =
     (extension f = ''jpg'' \<or> extension f = ''jpeg'' \<or> extension f = ''png'' \<or> extension f = ''gif'')"

text \<open>
  What the body of the loop over \<open>otherFiles\<close> assigns for one file: the main image, the
  image of a step, or nothing. \<open>NaN\<close> fails both comparisons of the step branch.
\<close>

datatype binding = MainImage | StepImage nat

definition stepIndex :: "string \<Rightarrow> nat \<Rightarrow> nat option" where
  "stepIndex bn n =
     (let split = split_on (CHR ''.'') bn
      in if length split = 2 then
           (case parseInt (split ! 1) of
              None \<Rightarrow> None
            | Some s \<Rightarrow> if s \<ge> 0 \<and> s < int n then Some (nat s) else None)
         else None)"

definition bindingTarget :: "tfile \<Rightarrow> nat \<Rightarrow> tfile \<Rightarrow> binding option" where
  "bindingTarget doc n f =
     (if acceptedExtension f then
        (if basename f = basename doc then Some MainImage
         else map_option StepImage (stepIndex (basename f) n))
      else None)"

definition bindFile :: "tfile \<Rightarrow> tfile \<Rightarrow> recipe \<Rightarrow> recipe" where
  "bindFile doc f r =
     (case bindingTarget doc (length (steps r)) f of
        None \<Rightarrow> r
      | Some MainImage \<Rightarrow> r\<lparr>recipeImage := Some f\<rparr>
      | Some (StepImage s) \<Rightarrow> r\<lparr>steps := (steps r)[s := (steps r ! s)\<lparr>st_image := Some f\<rparr>]\<rparr>)"

text \<open>The whole loop: the files are taken in the order of the folder.\<close>

definition bindImages :: "tfile option \<Rightarrow> tabstract_file list option \<Rightarrow> recipe \<Rightarrow> recipe" where
  "bindImages file chn r =
     (case file of None \<Rightarrow> r | Some doc \<Rightarrow> fold (bindFile doc) (otherFiles file chn) r)"

section \<open>The view and its preview tree\<close>

datatype view_mode = Source | Preview

record cooklang_settings =
  showImages :: bool
  showIngredientList :: bool
  showCookwareList :: bool
  showTimersList :: bool
  showTotalTime :: bool

text \<open>
  The elements created under \<open>previewEl\<close>: a text node, an element with its tag, its class
  and its children, an \<open>img\<close> with its class and the file it shows, and the \<open>span\<close> of an
  inline timer. The button inside such a span is mutable and shared with the closures of
  \<open>makeTimer\<close>, so it lives in a store and the tree holds its index.
\<close>

datatype node =
    Txt string
  | Elem string string "node list"
  | Img string tfile
  | TimerSpan nat

text \<open>
  One timer widget: the arguments \<open>seconds\<close> and \<open>name\<close> of \<open>makeTimer\<close>, its closure
  variables \<open>end\<close> (a timestamp in milliseconds) and \<open>interval\<close> (a handle of
  \<open>setInterval\<close>), the class list of \<open>el.parentElement\<close> (\<open>None\<close> without a parent),
  and the children of the button \<open>el\<close>.
\<close>

record timer_widget =
  w_seconds :: int
  w_name :: string
  w_end :: "int option"
  w_interval :: "nat option"
  w_parent :: "string list option"
  w_content :: "node list"

text \<open>
  The state of a \<open>CookView\<close> and of the parts of the host its code acts on: the inline
  \<open>display\<close> styles of the two containers, the icon and label of the mode button, the table
  of live intervals of the window (handle and widget), the next handle \<open>setInterval\<close>
  returns, whether each of the two sounds is playing, the notifications shown, and the number
  of save requests made by the editor plugin.
\<close>

record cook_view =
  settings :: cooklang_settings
  docFile :: "tfile option"
  siblings :: "tabstract_file list option"
  currentView :: view_mode
  data :: string
  editorDoc :: string
  recipe :: "recipe option"
  previewEl :: "node list"
  previewDisplay :: "string option"
  sourceDisplay :: "string option"
  buttonIcon :: string
  buttonLabel :: string
  widgets :: "timer_widget list"
  intervals :: "(nat \<times> nat) list"
  nextHandle :: nat
  timerAudioPlaying :: bool
  alarmAudioPlaying :: bool
  notifications :: "(string \<times> string) list"
  saveRequests :: nat

text \<open>The state after the constructor and \<open>onload\<close>, for given settings and file.\<close>

definition initialView ::
  "cooklang_settings \<Rightarrow> tfile option \<Rightarrow> tabstract_file list option \<Rightarrow> cook_view" where
  "initialView st fl chn =
     \<lparr>settings = st, docFile = fl, siblings = chn, currentView = Source, data = [],
      editorDoc = [], recipe = None, previewEl = [], previewDisplay = None,
      sourceDisplay = Some ''block'', buttonIcon = ''lines-of-text'',
      buttonLabel = ''Preview (Ctrl+Click to open in new pane)'', widgets = [],
      intervals = [], nextHandle = 1, timerAudioPlaying = False, alarmAudioPlaying = False,
      notifications = [], saveRequests = 0\<rparr>"

subsection \<open>The aggregate sections\<close>

text \<open>\<open>createEl('span', { cls, text })\<close> followed by \<open>appendText(' ')\<close>, when the value is present.\<close>

definition fragment :: "string \<Rightarrow> string option \<Rightarrow> node list" where
  "fragment c v = (case v of None \<Rightarrow> [] | Some t \<Rightarrow> [Elem ''span'' c [Txt t], Txt '' ''])"

definition orEmpty :: "string option \<Rightarrow> string" where
  "orEmpty v = (case v of None \<Rightarrow> [] | Some t \<Rightarrow> t)"

definition ingredientItem :: "ingredient \<Rightarrow> node" where
  "ingredientItem i =
     Elem ''li'' [] (fragment ''amount'' (ing_amount i) @ fragment ''unit'' (ing_units i) @
       [Txt (orEmpty (ing_name i))])"

definition cookwareItem :: "cookware \<Rightarrow> node" where
  "cookwareItem c = Elem ''li'' [] (fragment ''amount'' (cw_amount c) @ [Txt (orEmpty (cw_name c))])"

definition timerItem :: "timer \<Rightarrow> node" where
  "timerItem t =
     Elem ''li'' [] (fragment ''amount'' (map_option number_to_string (tm_amount t)) @
       fragment ''unit'' (tm_units t) @ [Txt (orEmpty (tm_name t))])"

definition ingredientsSection :: "recipe \<Rightarrow> node list" where
  "ingredientsSection r =
     [Elem ''h2'' ''ingredients-header'' [Txt ''Ingredients''],
      Elem ''ul'' ''ingredients'' (map ingredientItem (ingredients r))]"

definition cookwareSection :: "recipe \<Rightarrow> node list" where
  "cookwareSection r =
     [Elem ''h2'' ''cookware-header'' [Txt ''Cookware''],
      Elem ''ul'' ''cookware'' (map cookwareItem (cookware r))]"

definition timersSection :: "recipe \<Rightarrow> node list" where
  "timersSection r =
     [Elem ''h2'' ''timer-header'' [Txt ''Timers''],
      Elem ''ul'' ''timers'' (map timerItem (timers r))]"

definition totalTimeSection :: "recipe \<Rightarrow> node list" where
  "totalTimeSection r =
     (let time = calculateTotalTime r
      in if time > 0 then
           [Elem ''h2'' ''time-header'' [Txt ''Total Time''],
            Elem ''p'' ''time'' [Txt (formatTime time False)]]
         else [])"

subsection \<open>The method section and the timer widgets\<close>

text \<open>
  \<open>makeTimer(el, seconds, name)\<close> for a button with the given parent and children: both
  closure variables start as \<open>null\<close>.
\<close>

definition makeTimer :: "string list option \<Rightarrow> node list \<Rightarrow> int \<Rightarrow> string \<Rightarrow> timer_widget" where
  "makeTimer parent content seconds nm =
     \<lparr>w_seconds = seconds, w_name = nm, w_end = None, w_interval = None,
      w_parent = parent, w_content = content\<rparr>"

text \<open>The clock glyph U+23F2 on the button, in UTF-8.\<close>

definition clockGlyph :: string where
  "clockGlyph = [CHR 0xE2, CHR 0x8F, CHR 0xB2]"

text \<open>
  One part of a step, appended to the children of the \<open>step-text\<close> element; a timer part
  also adds its widget to the store. A name is shown on the button when it is truthy, that is
  present and not empty.
\<close>

fun renderPart :: "part \<Rightarrow> node list \<times> timer_widget list \<Rightarrow> node list \<times> timer_widget list" where
  "renderPart (PText t) (ns, ws) = (ns @ [Txt t], ws)"
| "renderPart (PIngredient i) (ns, ws) =
     (ns @ [Elem ''span'' ''ingredient''
        (Txt (orEmpty (ing_name i)) #
         (case ing_amount i of
            None \<Rightarrow> []
          | Some a \<Rightarrow>
              [Txt '' ('', Elem ''span'' ''amount'' [Txt a]] @
              (case ing_units i of
                 None \<Rightarrow> []
               | Some u \<Rightarrow> [Txt '' '', Elem ''span'' ''unit'' [Txt u]]) @
              [Txt '')'']))], ws)"
| "renderPart (PCookware c) (ns, ws) =
     (ns @ [Elem ''span'' ''cookware''
        (Txt (orEmpty (cw_name c)) #
         (case cw_amount c of
            None \<Rightarrow> []
          | Some a \<Rightarrow> [Txt '' ('', Elem ''span'' ''amount'' [Txt a], Txt '')'']))], ws)"
| "renderPart (PTimer t) (ns, ws) =
     (let content =
            Txt clockGlyph #
            (case tm_amount t of
               None \<Rightarrow> []
             | Some a \<Rightarrow> [Txt '' '', Elem ''span'' ''amount'' [Txt (formatTime a False)]]) @
            (if tm_name t \<noteq> None \<and> tm_name t \<noteq> Some [] then
               [Txt '' '', Elem ''span'' ''name'' [Txt (orEmpty (tm_name t))]]
             else [])
      in (ns @ [TimerSpan (length ws)],
          ws @ [makeTimer (Some [''timer'']) content
                  (case tm_amount t of None \<Rightarrow> 0 | Some a \<Rightarrow> a) (orEmpty (tm_name t))]))"
| "renderPart POther (ns, ws) = (ns @ [Elem ''span'' [] []], ws)"

text \<open>\<open>(step as any).text || step.line || []\<close>: an array, even an empty one, is truthy.\<close>

definition stepText :: "step \<Rightarrow> part list" where
  "stepText st =
     (case st_text st of
        Some ps \<Rightarrow> ps
      | None \<Rightarrow> (case st_line st of Some ps \<Rightarrow> ps | None \<Rightarrow> []))"

definition renderStep :: "bool \<Rightarrow> step \<Rightarrow> timer_widget list \<Rightarrow> node \<times> timer_widget list" where
  "renderStep showImg st ws =
     (let img = (case st_image st of
                   None \<Rightarrow> []
                 | Some f \<Rightarrow> if showImg then [Img ''step-image'' f] else []);
          (ns, ws') = fold renderPart (stepText st) ([], ws)
      in (Elem ''li'' [] (img @ [Elem ''div'' ''step-text'' ns]), ws'))"

fun renderSteps :: "bool \<Rightarrow> step list \<Rightarrow> timer_widget list \<Rightarrow> node list \<times> timer_widget list" where
  "renderSteps showImg [] ws = ([], ws)"
| "renderSteps showImg (st # sts) ws =
     (let (li, ws1) = renderStep showImg st ws;
          (lis, ws2) = renderSteps showImg sts ws1
      in (li # lis, ws2))"

subsection \<open>renderPreview\<close>

text \<open>
  \<open>renderPreview(recipe)\<close>. Both callers pass \<open>this.recipe\<close>, and the image bindings are
  assigned to that object, so the function reads the recipe of the state and leaves the bound
  recipe there. \<open>previewEl.empty()\<close> detaches the old children; it touches neither the
  widgets in the store nor the intervals of the window.
\<close>

definition renderPreview :: "cook_view \<Rightarrow> cook_view" where
  "renderPreview s =
     (case recipe s of
        None \<Rightarrow> s\<lparr>previewEl := []\<rparr>
      | Some r0 \<Rightarrow>
          (let st = settings s;
               r = (if showImages st then bindImages (docFile s) (siblings s) r0 else r0);
               mainImage = (if showImages st then
                              (case recipeImage r of None \<Rightarrow> [] | Some f \<Rightarrow> [Img ''main-image'' f])
                            else []);
               ingredientList = (if showIngredientList st then ingredientsSection r else []);
               cookwareList = (if showCookwareList st then cookwareSection r else []);
               timersList = (if showTimersList st then timersSection r else []);
               totalTime = (if showTotalTime st then totalTimeSection r else []);
               (lis, ws) = renderSteps (showImages st) (steps r) (widgets s)
           in s\<lparr>recipe := Some r,
                previewEl := mainImage @ ingredientList @ cookwareList @ timersList @ totalTime @
                  [Elem ''h2'' ''method-header'' [Txt ''Method''], Elem ''ol'' ''method'' lis],
                widgets := ws\<rparr>))"

section \<open>The timer widget\<close>

definition addClass :: "string \<Rightarrow> string list \<Rightarrow> string list" where
  "addClass c cs = (if c \<in> set cs then cs else cs @ [c])"

definition removeClass :: "string \<Rightarrow> string list \<Rightarrow> string list" where
  "removeClass c cs = filter (\<lambda>x. x \<noteq> c) cs"

text \<open>\<open>window.clearInterval(h)\<close> on the table of live intervals.\<close>

definition clearInterval :: "nat \<Rightarrow> (nat \<times> nat) list \<Rightarrow> (nat \<times> nat) list" where
  "clearInterval h tbl = filter (\<lambda>e. fst e \<noteq> h) tbl"

text \<open>
  The closure \<open>stop\<close> of the widget \<open>wid\<close>. The sound it stops is \<open>timerAudio\<close>;
  \<open>alarmAudio\<close> is not mentioned in it.
\<close>

definition stop :: "nat \<Rightarrow> cook_view \<Rightarrow> cook_view" where
  "stop wid s =
     (let w = widgets s ! wid;
          tbl = (case w_interval w of
                   None \<Rightarrow> intervals s
                 | Some h \<Rightarrow> clearInterval h (intervals s));
          w1 = w\<lparr>w_interval := None\<rparr>;
          w2 = w1\<lparr>w_parent := map_option (removeClass ''running'') (w_parent w1)\<rparr>;
          w3 = w2\<lparr>w_end := None\<rparr>
      in s\<lparr>widgets := (widgets s)[wid := w3], intervals := tbl, timerAudioPlaying := False\<rparr>)"

text \<open>
  The click listener of the widget \<open>wid\<close>, run when \<open>Date.now()\<close> is \<open>now\<close>. A widget
  that was never made has no listener.
\<close>

definition click :: "nat \<Rightarrow> int \<Rightarrow> cook_view \<Rightarrow> cook_view" where
  "click wid now s =
     (if wid < length (widgets s) then
        (let w = widgets s ! wid
         in if w_end w = None then
              (let w1 = w\<lparr>w_end := Some (now + w_seconds w * 1000)\<rparr>;
                   w2 = w1\<lparr>w_parent := map_option (addClass ''running'') (w_parent w1)\<rparr>;
                   w3 = w2\<lparr>w_interval := Some (nextHandle s)\<rparr>
               in s\<lparr>widgets := (widgets s)[wid := w3],
                    intervals := intervals s @ [(nextHandle s, wid)],
                    nextHandle := nextHandle s + 1\<rparr>)
            else stop wid s)
      else s)"

text \<open>
  \<open>amountEl.textContent = text\<close> for the first element of class \<open>amount\<close> among the
  children of the button, which are text nodes and spans holding text only.
\<close>

fun setAmountText :: "string \<Rightarrow> node list \<Rightarrow> node list" where
  "setAmountText t [] = []"
| "setAmountText t (Elem tg c ks # ns) =
     (if c = ''amount'' then Elem tg c [Txt t] # ns else Elem tg c ks # setAmountText t ns)"
| "setAmountText t (n # ns) = n # setAmountText t ns"

text \<open>
  \<open>updateTimer(el, totalSeconds, end, stop, name)\<close> when the clock reads \<open>now\<close>.
  \<open>Math.round\<close> of a number of milliseconds over a thousand rounds halves up.
\<close>

definition updateTimer :: "nat \<Rightarrow> int \<Rightarrow> int \<Rightarrow> int \<Rightarrow> string \<Rightarrow> cook_view \<Rightarrow> cook_view" where
  "updateTimer wid totalSeconds end now nm s =
     (let remaining = (end - now + 500) div 1000
      in if remaining \<le> 0 then
           (let s1 = stop wid s;
                s2 = s1\<lparr>alarmAudioPlaying := True\<rparr>
            in s2\<lparr>notifications := notifications s2 @
                 [(''Timer Complete'',
                   (if nm = [] then ''Timer'' else nm) @ '' for '' @
                     formatTimeForTimer (of_int totalSeconds) @ '' is done!'')]\<rparr>)
         else
           (let w = widgets s ! wid
            in s\<lparr>widgets := (widgets s)
                 [wid := w\<lparr>w_content := setAmountText (formatTimeForTimer (of_int remaining)) (w_content w)\<rparr>]\<rparr>))"

text \<open>
  One firing of the interval \<open>h\<close>: a cleared interval does not fire. The callback reads the
  closure variable \<open>end\<close> when it runs; with \<open>end\<close> being \<open>null\<close> the call
  \<open>end.getTime()\<close> would throw before any effect.
\<close>

definition tick :: "nat \<Rightarrow> int \<Rightarrow> cook_view \<Rightarrow> cook_view" where
  "tick h now s =
     (case map_of (intervals s) h of
        None \<Rightarrow> s
      | Some wid \<Rightarrow>
          if wid < length (widgets s) then
            (let w = widgets s ! wid
             in case w_end w of
                  None \<Rightarrow> s
                | Some e \<Rightarrow> updateTimer wid (w_seconds w) e now (w_name w) s)
          else s)"

section \<open>The operations of the view\<close>

text \<open>
  \<open>editorView.dispatch({ changes: { from, to, insert } })\<close>; the plugin of the editor requests
  a save on every update.
\<close>

definition dispatch :: "nat \<Rightarrow> nat \<Rightarrow> string \<Rightarrow> cook_view \<Rightarrow> cook_view" where
  "dispatch frm til ins s =
     s\<lparr>editorDoc := take frm (editorDoc s) @ ins @ drop til (editorDoc s),
       saveRequests := saveRequests s + 1\<rparr>"

text \<open>
  \<open>new Recipe(text)\<close> is the parser of the library, a parameter of the operations that call
  it.
\<close>

definition getViewData :: "(string \<Rightarrow> recipe) \<Rightarrow> cook_view \<Rightarrow> cook_view" where
  "getViewData parse s =
     (let s1 = s\<lparr>data := editorDoc s\<rparr>
      in s1\<lparr>recipe := Some (parse (data s1))\<rparr>)"

definition setViewData :: "(string \<Rightarrow> recipe) \<Rightarrow> string \<Rightarrow> bool \<Rightarrow> cook_view \<Rightarrow> cook_view" where
  "setViewData parse dat clr s =
     (let s1 = s\<lparr>data := dat\<rparr>;
          s2 = (if clr then dispatch 0 (length (editorDoc s1)) dat s1
                else dispatch 0 (length (editorDoc s1)) dat s1);
          s3 = s2\<lparr>recipe := Some (parse dat)\<rparr>
      in if currentView s3 = Preview then renderPreview s3 else s3)"

definition clear :: "cook_view \<Rightarrow> cook_view" where
  "clear s =
     (let s1 = s\<lparr>previewEl := []\<rparr>;
          s2 = dispatch 0 (length (editorDoc s1)) [] s1
      in s2\<lparr>data := []\<rparr>)"

text \<open>
  The argument of \<open>switchMode\<close>: a mode, a mouse event (with or without the modifier key), or
  a falsy value.
\<close>

datatype switch_arg = Mode view_mode | MouseEvent bool | Falsy

text \<open>The branch of \<open>switchMode\<close> taken when the argument is not a mouse event.\<close>

definition applyMode :: "view_mode \<Rightarrow> cook_view \<Rightarrow> cook_view" where
  "applyMode m s =
     (if m = Preview then
        (let s1 = s\<lparr>currentView := Preview, buttonIcon := ''pencil'',
                     buttonLabel := ''Edit (Ctrl+Click to edit in new pane)''\<rparr>;
             s2 = renderPreview s1
         in s2\<lparr>previewDisplay := Some ''block'', sourceDisplay := Some ''none''\<rparr>)
      else
        s\<lparr>currentView := Source, buttonIcon := ''lines-of-text'',
          buttonLabel := ''Preview (Ctrl+Click to open in new pane)'',
          previewDisplay := Some ''none'', sourceDisplay := Some ''block''\<rparr>)"

text \<open>
  \<open>switchMode(arg)\<close>. A mouse event with the modifier duplicates the leaf and leaves this
  view as it is; without it the view goes through \<open>setState\<close>, whose continuation calls
  \<open>switchMode\<close> again with the mode itself.
\<close>

definition switchMode :: "switch_arg \<Rightarrow> cook_view \<Rightarrow> cook_view" where
  "switchMode arg s =
     (let opposite = (if currentView s = Source then Preview else Source)
      in case arg of
           Mode m \<Rightarrow> applyMode m s
         | Falsy \<Rightarrow> applyMode opposite s
         | MouseEvent isMod \<Rightarrow> if isMod then s else applyMode opposite s)"

section \<open>Runs of the view\<close>

text \<open>
  Everything that can happen to a view between two moments of rest: its operations, a click
  on a timer button, and a firing of an interval.
\<close>

datatype event =
    EvSetViewData string bool
  | EvGetViewData
  | EvClear
  | EvSwitchMode switch_arg
  | EvClick nat int
  | EvTick nat int

fun handle :: "(string \<Rightarrow> recipe) \<Rightarrow> event \<Rightarrow> cook_view \<Rightarrow> cook_view" where
  "handle parse (EvSetViewData dat clr) s = setViewData parse dat clr s"
| "handle parse EvGetViewData s = getViewData parse s"
| "handle parse EvClear s = clear s"
| "handle parse (EvSwitchMode arg) s = switchMode arg s"
| "handle parse (EvClick wid now) s = click wid now s"
| "handle parse (EvTick h now) s = tick h now s"

definition run :: "(string \<Rightarrow> recipe) \<Rightarrow> event list \<Rightarrow> cook_view \<Rightarrow> cook_view" where
  "run parse evs s = fold (handle parse) evs s"

section \<open>Observations and invariants\<close>

text \<open>
  The class of a node of the tree (none for a text node), whether a list of nodes has one of a
  given class, and the children of an element.
\<close>

fun nodeClass :: "node \<Rightarrow> string" where
  "nodeClass (Txt t) = []"
| "nodeClass (Elem tg c ks) = c"
| "nodeClass (Img c f) = c"
| "nodeClass (TimerSpan i) = ''timer''"

definition hasClass :: "string \<Rightarrow> node list \<Rightarrow> bool" where
  "hasClass c ns = (c \<in> set (map nodeClass ns))"

fun childNodes :: "node \<Rightarrow> node list" where
  "childNodes (Elem tg c ks) = ks"
| "childNodes n = []"

text \<open>
  The state invariant of the timer widgets: the deadline is set exactly when the handle of the
  interval is.
\<close>

definition timerInvariant :: "cook_view \<Rightarrow> bool" where
  "timerInvariant s = list_all (\<lambda>w. (w_end w \<noteq> None) = (w_interval w \<noteq> None)) (widgets s)"

text \<open>Every live interval has a handle below the next one \<open>setInterval\<close> returns.\<close>

definition intervalsFresh :: "cook_view \<Rightarrow> bool" where
  "intervalsFresh s = list_all (\<lambda>e. fst e < nextHandle s) (intervals s)"

text \<open>
  The recipe a render works on: the recipe of the state after the binding of the images, which
  runs only when images are shown.
\<close>

definition boundRecipe :: "cook_view \<Rightarrow> recipe \<Rightarrow> recipe" where
  "boundRecipe s r0 =
     (if showImages (settings s) then bindImages (docFile s) (siblings s) r0 else r0)"

section \<open>Sample inputs\<close>

definition allOn :: cooklang_settings where
  "allOn = \<lparr>showImages = True, showIngredientList = True, showCookwareList = True,
     showTimersList = True, showTotalTime = True\<rparr>"

definition eggTimer :: timer where
  "eggTimer = \<lparr>tm_name = Some ''eggs'', tm_amount = Some 1, tm_units = Some ''seconds''\<rparr>"

text \<open>A recipe of one step with one inline timer of one second, and no ingredient or cookware.\<close>

definition boilRecipe :: recipe where
  "boilRecipe =
     \<lparr>ingredients = [], cookware = [], timers = [eggTimer],
      steps = [\<lparr>st_text = None, st_line = Some [PText ''Boil for '', PTimer eggTimer],
                st_image = None\<rparr>],
      recipeImage = None\<rparr>"

definition boilParse :: "string \<Rightarrow> recipe" where
  "boilParse txt = boilRecipe"

definition startView :: cook_view where
  "startView = initialView allOn None None"

text \<open>The view in preview mode, with the recipe loaded and its timer idle.\<close>

definition previewView :: cook_view where
  "previewView = run boilParse [EvSetViewData ''boil'' False, EvSwitchMode (Mode Preview)] startView"

text \<open>The same view after a click on the timer when the clock reads 0: the timer is running.\<close>

definition runningView :: cook_view where
  "runningView = click 0 0 previewView"

text \<open>
  The timer has expired at 1000 ms, which started the alarm, and was clicked again at 1100 ms:
  it is running while the alarm plays.
\<close>

definition ringingView :: cook_view where
  "ringingView = run boilParse [EvTick 1 1000, EvClick 0 1100] runningView"

text \<open>A recipe whose inline timer has neither an amount nor a name.\<close>

definition restTimer :: timer where
  "restTimer = \<lparr>tm_name = None, tm_amount = None, tm_units = None\<rparr>"

definition restRecipe :: recipe where
  "restRecipe =
     \<lparr>ingredients = [], cookware = [], timers = [restTimer],
      steps = [\<lparr>st_text = Some [PText ''Let it rest '', PTimer restTimer], st_line = None,
                st_image = None\<rparr>],
      recipeImage = None\<rparr>"

definition restParse :: "string \<Rightarrow> recipe" where
  "restParse txt = restRecipe"

definition restView :: cook_view where
  "restView =
     run restParse [EvSetViewData ''rest'' False, EvSwitchMode (Mode Preview)]
       (initialView allOn None None)"

text \<open>
  A document \<open>recipe.cook\<close> of two steps in a folder with \<open>recipe.jpg\<close>,
  \<open>recipe.0.png\<close> and \<open>recipe.3.gif\<close>.
\<close>

definition recipeDoc :: tfile where
  "recipeDoc = \<lparr>name = ''recipe.cook'', basename = ''recipe'', extension = ''cook''\<rparr>"

definition recipeJpg :: tfile where
  "recipeJpg = \<lparr>name = ''recipe.jpg'', basename = ''recipe'', extension = ''jpg''\<rparr>"

definition recipe0Png :: tfile where
  "recipe0Png = \<lparr>name = ''recipe.0.png'', basename = ''recipe.0'', extension = ''png''\<rparr>"

definition recipe3Gif :: tfile where
  "recipe3Gif = \<lparr>name = ''recipe.3.gif'', basename = ''recipe.3'', extension = ''gif''\<rparr>"

definition recipeFolder :: "tabstract_file list" where
  "recipeFolder = [TFile recipeDoc, TFile recipeJpg, TFile recipe0Png, TFile recipe3Gif]"

definition mixStep :: step where
  "mixStep =
     \<lparr>st_text = None,
      st_line = Some [PText ''Mix the '',
        PIngredient \<lparr>ing_name = Some ''flour'', ing_amount = Some ''200'', ing_units = Some ''g''\<rparr>],
      st_image = None\<rparr>"

definition bakeStep :: step where
  "bakeStep =
     \<lparr>st_text = None,
      st_line = Some [PText ''Bake in the '', PCookware \<lparr>cw_name = Some ''oven'', cw_amount = None\<rparr>],
      st_image = None\<rparr>"

definition twoStepRecipe :: recipe where
  "twoStepRecipe =
     \<lparr>ingredients = [\<lparr>ing_name = Some ''flour'', ing_amount = Some ''200'', ing_units = Some ''g''\<rparr>],
      cookware = [\<lparr>cw_name = Some ''oven'', cw_amount = None\<rparr>],
      timers = [], steps = [mixStep, bakeStep], recipeImage = None\<rparr>"

definition twoStepParse :: "string \<Rightarrow> recipe" where
  "twoStepParse txt = twoStepRecipe"

text \<open>The recipe with the images of the folder bound, and the view that previews it.\<close>

definition galleryRecipe :: recipe where
  "galleryRecipe =
     twoStepRecipe\<lparr>steps := [mixStep\<lparr>st_image := Some recipe0Png\<rparr>, bakeStep],
       recipeImage := Some recipeJpg\<rparr>"

definition galleryView :: cook_view where
  "galleryView =
     run twoStepParse [EvSetViewData ''cake'' False, EvSwitchMode (Mode Preview)]
       (initialView allOn (Some recipeDoc) (Some recipeFolder))"

text \<open>A sibling whose suffix starts with a digit, and a document whose base name has a dot.\<close>

definition recipe0abcPng :: tfile where
  "recipe0abcPng = \<lparr>name = ''recipe.0abc.png'', basename = ''recipe.0abc'', extension = ''png''\<rparr>"

definition dottedDoc :: tfile where
  "dottedDoc = \<lparr>name = ''v1.2.cook'', basename = ''v1.2'', extension = ''cook''\<rparr>"

definition dottedStep0 :: tfile where
  "dottedStep0 = \<lparr>name = ''v1.2.0.png'', basename = ''v1.2.0'', extension = ''png''\<rparr>"

text \<open>
  The same document in a folder where two siblings name step 1 and a folder sits among the
  files.
\<close>

definition recipe1Png :: tfile where
  "recipe1Png = \<lparr>name = ''recipe.1.png'', basename = ''recipe.1'', extension = ''png''\<rparr>"

definition recipe1Gif :: tfile where
  "recipe1Gif = \<lparr>name = ''recipe.1.gif'', basename = ''recipe.1'', extension = ''gif''\<rparr>"

definition crowdedFolder :: "tabstract_file list" where
  "crowdedFolder =
     [TFile recipe1Png, TFile recipeDoc, TFolder ''recipe.0'', TFile recipe0Png, TFile recipe1Gif]"

text \<open>A sibling whose suffix has a no-break space, U+00A0, before the numeral.\<close>

definition recipeNbsp1Png :: tfile where
  "recipeNbsp1Png =
     \<lparr>name = ''recipe.'' @ [CHR 0xC2, CHR 0xA0] @ ''1.png'',
      basename = ''recipe.'' @ [CHR 0xC2, CHR 0xA0] @ ''1'', extension = ''png''\<rparr>"

section \<open>Properties\<close>

subsection \<open>What a render leaves alone\<close>

lemma renderPreview_frame:
  "intervals (renderPreview s) = intervals s"
  "editorDoc (renderPreview s) = editorDoc s"
  "data (renderPreview s) = data s"
  "currentView (renderPreview s) = currentView s"
  "nextHandle (renderPreview s) = nextHandle s"
  "alarmAudioPlaying (renderPreview s) = alarmAudioPlaying s"
  "timerAudioPlaying (renderPreview s) = timerAudioPlaying s"
  "notifications (renderPreview s) = notifications s"
  "settings (renderPreview s) = settings s"
  by (simp_all add: renderPreview_def Let_def split: option.split prod.split)

lemma renderPreview_cong:
  "recipe s = recipe t \<Longrightarrow> settings s = settings t \<Longrightarrow> docFile s = docFile t \<Longrightarrow>
   siblings s = siblings t \<Longrightarrow> widgets s = widgets t \<Longrightarrow>
   previewEl (renderPreview s) = previewEl (renderPreview t) \<and>
   recipe (renderPreview s) = recipe (renderPreview t) \<and>
   widgets (renderPreview s) = widgets (renderPreview t)"
  by (simp add: renderPreview_def Let_def split: option.split prod.split)

lemma renderPreview_nonempty: "recipe s \<noteq> None \<Longrightarrow> previewEl (renderPreview s) \<noteq> []"
  by (auto simp add: renderPreview_def Let_def split: option.split prod.split)

lemma previewView_mode: "currentView previewView = Preview"
  by code_simp

lemma startView_mode: "currentView startView = Source"
  by code_simp

subsection \<open>setViewData\<close>

text \<open>
  Claim C7. For every text and either value of the flag, \<open>setViewData\<close> does the same: the
  content of the editor becomes the text, the recipe is parsed from the text, and the preview
  is rendered again exactly when the view is in preview mode. In preview mode the result is the
  render of the state holding the new text and the new recipe; in source mode it is that state
  itself, with the preview untouched.
\<close>

theorem setViewData_flag_irrelevant:
  "setViewData parse dat True s = setViewData parse dat False s
   \<and> editorDoc (setViewData parse dat clr s) = dat
   \<and> data (setViewData parse dat clr s) = dat
   \<and> (currentView s = Preview \<longrightarrow>
        setViewData parse dat clr s =
          renderPreview (s\<lparr>data := dat, editorDoc := dat, saveRequests := saveRequests s + 1,
                            recipe := Some (parse dat)\<rparr>))
   \<and> (currentView s \<noteq> Preview \<longrightarrow>
        setViewData parse dat clr s =
          s\<lparr>data := dat, editorDoc := dat, saveRequests := saveRequests s + 1,
            recipe := Some (parse dat)\<rparr>)"
  by (simp add: setViewData_def dispatch_def renderPreview_frame Let_def)

theorem setViewData_flag_irrelevant_witness:
  "currentView previewView = Preview
   \<and> setViewData boilParse ''stew'' True previewView =
       renderPreview (previewView\<lparr>data := ''stew'', editorDoc := ''stew'',
         saveRequests := saveRequests previewView + 1, recipe := Some (boilParse ''stew'')\<rparr>)
   \<and> currentView startView \<noteq> Preview
   \<and> setViewData boilParse ''stew'' False startView =
       startView\<lparr>data := ''stew'', editorDoc := ''stew'',
         saveRequests := saveRequests startView + 1, recipe := Some (boilParse ''stew'')\<rparr>"
proof -
  have "currentView startView \<noteq> Preview"
    by (simp add: startView_mode)
  then show ?thesis
    using setViewData_flag_irrelevant [of boilParse "''stew''" previewView True]
      setViewData_flag_irrelevant [of boilParse "''stew''" startView False]
      previewView_mode
    by blast
qed

subsection \<open>clear\<close>

text \<open>
  Claim C9. \<open>clear\<close> empties the preview, the content of the editor and the text of the view,
  and leaves the parsed recipe as it was. A switch to preview mode after it therefore renders
  what it would have rendered without the \<open>clear\<close>: the recipe parsed before, and with a
  recipe present never an empty preview.
\<close>

theorem clear_keeps_recipe:
  "recipe (clear s) = recipe s
   \<and> previewEl (clear s) = [] \<and> editorDoc (clear s) = [] \<and> data (clear s) = []
   \<and> previewEl (switchMode (Mode Preview) (clear s)) = previewEl (switchMode (Mode Preview) s)
   \<and> recipe (switchMode (Mode Preview) (clear s)) = recipe (switchMode (Mode Preview) s)
   \<and> (recipe s \<noteq> None \<longrightarrow> previewEl (switchMode (Mode Preview) (clear s)) \<noteq> [])"
proof -
  let ?a = "(clear s)\<lparr>currentView := Preview, buttonIcon := ''pencil'',
                     buttonLabel := ''Edit (Ctrl+Click to edit in new pane)''\<rparr>"
  let ?b = "s\<lparr>currentView := Preview, buttonIcon := ''pencil'',
                     buttonLabel := ''Edit (Ctrl+Click to edit in new pane)''\<rparr>"
  have c: "recipe (clear s) = recipe s" "previewEl (clear s) = []"
    "editorDoc (clear s) = []" "data (clear s) = []"
    by (simp_all add: clear_def dispatch_def)
  have "previewEl (renderPreview ?a) = previewEl (renderPreview ?b) \<and>
        recipe (renderPreview ?a) = recipe (renderPreview ?b) \<and>
        widgets (renderPreview ?a) = widgets (renderPreview ?b)"
    by (rule renderPreview_cong) (simp_all add: clear_def dispatch_def)
  moreover have "recipe s \<noteq> None \<longrightarrow> previewEl (renderPreview ?a) \<noteq> []"
    using renderPreview_nonempty [of ?a] by (simp add: clear_def dispatch_def)
  ultimately show ?thesis
    using c by (simp add: switchMode_def applyMode_def Let_def)
qed

theorem clear_keeps_recipe_witness:
  "recipe previewView \<noteq> None
   \<and> recipe (clear previewView) = recipe previewView
   \<and> previewEl (clear previewView) = []
   \<and> previewEl (switchMode (Mode Preview) (clear previewView)) \<noteq> []"
proof -
  have "recipe previewView \<noteq> None"
    by code_simp
  then show ?thesis
    using clear_keeps_recipe [of previewView] by blast
qed

subsection \<open>The state of the timer widgets\<close>

lemma renderPart_widgets:
  "\<exists>new. snd (renderPart p (ns, ws)) = ws @ new \<and> list_all (\<lambda>w. w_end w = None \<and> w_interval w = None) new"
  by (cases p) (simp_all add: Let_def makeTimer_def)

lemma fold_renderPart_widgets:
  "\<exists>new. snd (fold renderPart ps (ns, ws)) = ws @ new \<and> list_all (\<lambda>w. w_end w = None \<and> w_interval w = None) new"
proof (induction ps arbitrary: ns ws)
  case Nil
  then show ?case by simp
next
  case (Cons p ps)
  obtain ns1 ws1 where r: "renderPart p (ns, ws) = (ns1, ws1)" by (cases "renderPart p (ns, ws)")
  from renderPart_widgets[of p ns ws] r obtain n1 where
    a: "ws1 = ws @ n1" "list_all (\<lambda>w. w_end w = None \<and> w_interval w = None) n1" by auto
  from Cons.IH[of ns1 ws1] obtain n2 where
    b: "snd (fold renderPart ps (ns1, ws1)) = ws1 @ n2" "list_all (\<lambda>w. w_end w = None \<and> w_interval w = None) n2" by auto
  show ?case 
    apply (rule exI[of _ "n1 @ n2"])
    using a b r by simp
qed

lemma renderStep_widgets:
  "\<exists>new. snd (renderStep b st ws) = ws @ new \<and> list_all (\<lambda>w. w_end w = None \<and> w_interval w = None) new"
  using fold_renderPart_widgets[of "stepText st" "[]" ws]
  by (auto simp add: renderStep_def Let_def split: prod.split)

lemma renderSteps_widgets:
  "\<exists>new. snd (renderSteps b sts ws) = ws @ new \<and> list_all (\<lambda>w. w_end w = None \<and> w_interval w = None) new"
proof (induction sts arbitrary: ws)
  case Nil
  then show ?case by simp
next
  case (Cons st sts)
  obtain li ws1 where r: "renderStep b st ws = (li, ws1)" by (cases "renderStep b st ws")
  from renderStep_widgets[of b st ws] r obtain n1 where
    a: "ws1 = ws @ n1" "list_all (\<lambda>w. w_end w = None \<and> w_interval w = None) n1" by auto
  from Cons.IH[of ws1] obtain n2 where
    b: "snd (renderSteps b sts ws1) = ws1 @ n2" "list_all (\<lambda>w. w_end w = None \<and> w_interval w = None) n2" by auto
  show ?case 
    apply (rule exI[of _ "n1 @ n2"])
    using a b r by (auto split: prod.split)
qed

lemma renderPreview_widgets:
  "\<exists>new. widgets (renderPreview s) = widgets s @ new \<and> list_all (\<lambda>w. w_end w = None \<and> w_interval w = None) new"
proof (cases "recipe s")
  case None
  then show ?thesis by (simp add: renderPreview_def)
next
  case (Some r0)
  let ?r = "if showImages (settings s) then bindImages (docFile s) (siblings s) r0 else r0"
  from renderSteps_widgets[of "showImages (settings s)" "steps ?r" "widgets s"]
  show ?thesis using Some
    by (auto simp add: renderPreview_def Let_def split: prod.split)
qed

lemma timerInvariant_render: "timerInvariant s \<Longrightarrow> timerInvariant (renderPreview s)"
proof -
  assume a: "timerInvariant s"
  obtain new where n: "widgets (renderPreview s) = widgets s @ new" "list_all (\<lambda>w. w_end w = None \<and> w_interval w = None) new"
    using renderPreview_widgets by blast
  have "list_all (\<lambda>w. (w_end w \<noteq> None) = (w_interval w \<noteq> None)) new"
    using n(2) by (induction new) auto
  then show ?thesis using a n(1) by (simp add: timerInvariant_def)
qed

lemma list_all_update: "list_all P xs \<Longrightarrow> P v \<Longrightarrow> list_all P (xs[i := v])"
  by (induction xs arbitrary: i) (auto split: nat.split)

lemma list_all_nth: "list_all P xs \<Longrightarrow> i < length xs \<Longrightarrow> P (xs ! i)"
  by (simp add: list_all_length)

lemma timerInvariant_stop: "timerInvariant s \<Longrightarrow> timerInvariant (stop wid s)"
  by (simp add: timerInvariant_def stop_def Let_def list_all_update)

lemma timerInvariant_click: "timerInvariant s \<Longrightarrow> timerInvariant (click wid now s)"
  using timerInvariant_stop [of s wid]
  by (simp add: click_def Let_def) (simp add: timerInvariant_def list_all_update)

lemma timerInvariant_updateTimer:
  "timerInvariant s \<Longrightarrow> wid < length (widgets s) \<Longrightarrow> timerInvariant (updateTimer wid tot e now nm s)"
proof -
  assume a: "timerInvariant s" and b: "wid < length (widgets s)"
  have "timerInvariant (stop wid s)" using a by (rule timerInvariant_stop)
  then have 1: "timerInvariant ((stop wid s)\<lparr>alarmAudioPlaying := True, notifications := ns\<rparr>)" for ns
    by (simp add: timerInvariant_def)
  have "(w_end (widgets s ! wid) \<noteq> None) = (w_interval (widgets s ! wid) \<noteq> None)"
    using list_all_nth [OF a [unfolded timerInvariant_def] b] .
  then have 2: "timerInvariant (s\<lparr>widgets := (widgets s)[wid := (widgets s ! wid)\<lparr>w_content := c\<rparr>]\<rparr>)" for c
    using a by (simp add: timerInvariant_def list_all_update)
  show ?thesis using 1 2 by (simp add: updateTimer_def Let_def)
qed

lemma timerInvariant_tick: "timerInvariant s \<Longrightarrow> timerInvariant (tick h now s)"
  using timerInvariant_updateTimer[of s]
  by (auto simp add: tick_def Let_def split: option.split)

lemma timerInvariant_handle: "timerInvariant s \<Longrightarrow> timerInvariant (handle parse e s)"
proof (cases e)
  case (EvSetViewData dat clr)
  assume a: "timerInvariant s"
  have "timerInvariant (s\<lparr>data := dat, editorDoc := dat, saveRequests := saveRequests s + 1, recipe := Some (parse dat)\<rparr>)"
    using a by (simp add: timerInvariant_def)
  from timerInvariant_render[OF this] a show ?thesis using EvSetViewData
    by (simp add: setViewData_def dispatch_def Let_def timerInvariant_def)
next
  case EvGetViewData
  assume a: "timerInvariant s"
  then show ?thesis using EvGetViewData by (simp add: getViewData_def Let_def timerInvariant_def)
next
  case EvClear
  assume a: "timerInvariant s"
  then show ?thesis using EvClear by (simp add: clear_def dispatch_def Let_def timerInvariant_def)
next
  case (EvSwitchMode arg)
  assume a: "timerInvariant s"
  have m: "timerInvariant (applyMode m s)" for m
  proof -
    have "timerInvariant (s\<lparr>currentView := Preview, buttonIcon := ''pencil'',
                     buttonLabel := ''Edit (Ctrl+Click to edit in new pane)''\<rparr>)"
      using a by (simp add: timerInvariant_def)
    from timerInvariant_render[OF this] a show ?thesis
      by (simp add: applyMode_def Let_def timerInvariant_def)
  qed
  show ?thesis using EvSwitchMode m a by (simp add: switchMode_def Let_def split: switch_arg.split)
next
  case (EvClick wid now)
  assume a: "timerInvariant s"
  then show ?thesis using EvClick timerInvariant_click by simp
next
  case (EvTick h now)
  assume a: "timerInvariant s"
  then show ?thesis using EvTick timerInvariant_tick by simp
qed

lemma timerInvariant_run: "timerInvariant s \<Longrightarrow> timerInvariant (run parse evs s)"
  unfolding run_def
  by (induction evs arbitrary: s) (simp_all add: timerInvariant_handle)

lemma timerInvariant_initial: "timerInvariant (initialView st fl chn)"
  by (simp add: timerInvariant_def initialView_def)

text \<open>
  Claim C8. After any sequence of operations, clicks and interval firings from the initial
  view, every timer widget has its deadline set exactly when its interval handle is set:
  \<open>end\<close> is not \<open>null\<close> iff \<open>interval\<close> is not \<open>null\<close>.
\<close>

theorem timer_state_invariant:
  "timerInvariant (run parse evs (initialView st fl chn))"
  by (rule timerInvariant_run [OF timerInvariant_initial])

theorem timer_state_invariant_witness:
  "timerInvariant (run boilParse
      [EvSetViewData ''boil'' False, EvSwitchMode (Mode Preview), EvClick 0 0]
      (initialView allOn None None))
   \<and> w_end (widgets (run boilParse
      [EvSetViewData ''boil'' False, EvSwitchMode (Mode Preview), EvClick 0 0]
      (initialView allOn None None)) ! 0) = Some 1000
   \<and> w_interval (widgets (run boilParse
      [EvSetViewData ''boil'' False, EvSwitchMode (Mode Preview), EvClick 0 0]
      (initialView allOn None None)) ! 0) = Some 1"
proof -
  have "w_end (widgets (run boilParse
      [EvSetViewData ''boil'' False, EvSwitchMode (Mode Preview), EvClick 0 0]
      (initialView allOn None None)) ! 0) = Some 1000
   \<and> w_interval (widgets (run boilParse
      [EvSetViewData ''boil'' False, EvSwitchMode (Mode Preview), EvClick 0 0]
      (initialView allOn None None)) ! 0) = Some 1"
    by code_simp
  then show ?thesis
    using timer_state_invariant [of boilParse
      "[EvSetViewData ''boil'' False, EvSwitchMode (Mode Preview), EvClick 0 0]" allOn None None]
    by blast
qed


subsection \<open>Re-rendering and cancelling\<close>

text \<open>
  Against claim C1 as stated: the sample view is in preview mode with its timer running; after
  \<open>setViewData\<close>, and after a switch to preview, the interval of the discarded widget is
  still live, and its next firing past the deadline still runs the callback, which notifies.
\<close>

theorem rerender_leaks_schedule_counterexample:
  "currentView runningView = Preview
   \<and> w_end (widgets runningView ! 0) \<noteq> None
   \<and> intervals (setViewData boilParse ''boil'' False runningView) = [(1, 0)]
   \<and> intervals (switchMode (Mode Preview) runningView) = [(1, 0)]
   \<and> notifications (tick 1 1000 (setViewData boilParse ''boil'' False runningView)) =
       [(''Timer Complete'', ''eggs for 0:01 is done!'')]"
  by code_simp

lemma applyMode_intervals: "intervals (applyMode m s) = intervals s"
  by (simp add: applyMode_def Let_def renderPreview_frame)

lemma take_widgets_render: "take (length (widgets s)) (widgets (renderPreview s)) = widgets s"
  using renderPreview_widgets [of s] by auto

lemma applyMode_widgets: "take (length (widgets s)) (widgets (applyMode m s)) = widgets s"
  using take_widgets_render [of "s\<lparr>currentView := Preview, buttonIcon := ''pencil'',
                     buttonLabel := ''Edit (Ctrl+Click to edit in new pane)''\<rparr>"]
  by (simp add: applyMode_def Let_def)

text \<open>
  Claim C1, amended. A re-render of the preview, by \<open>setViewData\<close> or by
  \<open>switchMode\<close>, cancels no tick schedule: the table of live intervals after it is the
  table before it, and every widget made before it keeps its state, deadline and handle
  included. A schedule started by a widget that the re-render discards stays live.
\<close>

theorem rerender_keeps_schedules:
  "intervals (setViewData parse dat clr s) = intervals s
   \<and> intervals (switchMode arg s) = intervals s
   \<and> take (length (widgets s)) (widgets (setViewData parse dat clr s)) = widgets s
   \<and> take (length (widgets s)) (widgets (switchMode arg s)) = widgets s"
proof -
  have 1: "intervals (setViewData parse dat clr s) = intervals s"
    by (simp add: setViewData_def dispatch_def Let_def renderPreview_frame)
  have 2: "intervals (switchMode arg s) = intervals s"
    by (simp add: switchMode_def Let_def applyMode_intervals split: switch_arg.split)
  have 3: "take (length (widgets s)) (widgets (setViewData parse dat clr s)) = widgets s"
    using take_widgets_render [of "s\<lparr>data := dat, editorDoc := dat, saveRequests := saveRequests s + 1, recipe := Some (parse dat)\<rparr>"]
    by (simp add: setViewData_def dispatch_def Let_def)
  have 4: "take (length (widgets s)) (widgets (switchMode arg s)) = widgets s"
    by (simp add: switchMode_def Let_def applyMode_widgets split: switch_arg.split)
  show ?thesis using 1 2 3 4 by simp
qed

text \<open>
  Against claim C2 as stated: in the sample view the timer runs while the alarm of its earlier
  expiry plays; the click that cancels the timer leaves the alarm playing.
\<close>

theorem cancel_leaves_alarm_counterexample:
  "w_end (widgets ringingView ! 0) \<noteq> None
   \<and> alarmAudioPlaying ringingView
   \<and> w_end (widgets (click 0 1200 ringingView) ! 0) = None
   \<and> alarmAudioPlaying (click 0 1200 ringingView)"
  by code_simp

lemma clearInterval_gone: "h \<notin> fst ` set (clearInterval h tbl)"
  by (auto simp add: clearInterval_def)

text \<open>
  Claim C2, amended. A click on a running timer widget, in that one handler, clears the
  interval of the widget, removes the class \<open>running\<close> from the parent of the button,
  stops the tick sound \<open>timerAudio\<close> and clears the deadline and the handle, so that the
  next click starts a fresh countdown. The alarm sound \<open>alarmAudio\<close> and the
  notifications are left as they are.
\<close>

theorem click_cancels_running_timer:
  assumes "wid < length (widgets s)" and "w_end (widgets s ! wid) \<noteq> None"
  shows "w_end (widgets (click wid now s) ! wid) = None
    \<and> w_interval (widgets (click wid now s) ! wid) = None
    \<and> (\<forall>h. w_interval (widgets s ! wid) = Some h \<longrightarrow> h \<notin> fst ` set (intervals (click wid now s)))
    \<and> (\<forall>cs. w_parent (widgets (click wid now s) ! wid) = Some cs \<longrightarrow> ''running'' \<notin> set cs)
    \<and> \<not> timerAudioPlaying (click wid now s)
    \<and> alarmAudioPlaying (click wid now s) = alarmAudioPlaying s
    \<and> notifications (click wid now s) = notifications s
    \<and> w_end (widgets (click wid later (click wid now s)) ! wid) =
        Some (later + w_seconds (widgets s ! wid) * 1000)"
proof -
  have c: "click wid now s = stop wid s"
    using assms by (auto simp add: click_def Let_def)
  have 1: "w_end (widgets (stop wid s) ! wid) = None" "w_interval (widgets (stop wid s) ! wid) = None"
    "\<not> timerAudioPlaying (stop wid s)" "alarmAudioPlaying (stop wid s) = alarmAudioPlaying s"
    "notifications (stop wid s) = notifications s" "length (widgets (stop wid s)) = length (widgets s)"
    "w_seconds (widgets (stop wid s) ! wid) = w_seconds (widgets s ! wid)"
    using assms(1) by (simp_all add: stop_def Let_def)
  have 2: "\<forall>h. w_interval (widgets s ! wid) = Some h \<longrightarrow> h \<notin> fst ` set (intervals (stop wid s))"
    by (simp add: stop_def Let_def clearInterval_gone)
  have 3: "\<forall>cs. w_parent (widgets (stop wid s) ! wid) = Some cs \<longrightarrow> ''running'' \<notin> set cs"
    using assms(1) by (auto simp add: stop_def Let_def removeClass_def)
  have 4: "w_end (widgets (click wid later (stop wid s)) ! wid) =
        Some (later + w_seconds (widgets s ! wid) * 1000)"
    using assms(1) 1 by (simp add: click_def Let_def)
  show ?thesis unfolding c using 1 2 3 4 by simp
qed

theorem click_cancels_running_timer_witness:
  "0 < length (widgets runningView) \<and> w_end (widgets runningView ! 0) \<noteq> None
   \<and> w_interval (widgets runningView ! 0) = Some 1
   \<and> w_end (widgets (click 0 700 runningView) ! 0) = None
   \<and> w_interval (widgets (click 0 700 runningView) ! 0) = None
   \<and> 1 \<notin> fst ` set (intervals (click 0 700 runningView))
   \<and> \<not> timerAudioPlaying (click 0 700 runningView)"
proof -
  have h: "0 < length (widgets runningView)" "w_end (widgets runningView ! 0) \<noteq> None"
    "w_interval (widgets runningView ! 0) = Some 1"
    by code_simp+
  show ?thesis
    using click_cancels_running_timer [OF h(1) h(2), of 700 0] h by blast
qed


subsection \<open>Timers without an amount\<close>

lemma intervalsFresh_stop: "intervalsFresh s \<Longrightarrow> intervalsFresh (stop wid s)"
  by (auto simp add: intervalsFresh_def stop_def Let_def clearInterval_def list_all_iff split: option.split)

lemma intervalsFresh_click: "intervalsFresh s \<Longrightarrow> intervalsFresh (click wid now s)"
  using intervalsFresh_stop [of s wid]
  by (auto simp add: click_def Let_def intervalsFresh_def list_all_iff)

lemma intervalsFresh_tick: "intervalsFresh s \<Longrightarrow> intervalsFresh (tick h now s)"
  using intervalsFresh_stop [of s]
  by (auto simp add: tick_def updateTimer_def Let_def intervalsFresh_def split: option.split)

lemma intervalsFresh_render: "intervalsFresh s \<Longrightarrow> intervalsFresh (renderPreview s)"
  by (simp add: intervalsFresh_def renderPreview_frame)

lemma intervalsFresh_handle: "intervalsFresh s \<Longrightarrow> intervalsFresh (handle parse e s)"
proof (cases e)
  case (EvSetViewData dat clr)
  assume "intervalsFresh s"
  then show ?thesis using EvSetViewData
    by (simp add: setViewData_def dispatch_def Let_def intervalsFresh_def renderPreview_frame)
next
  case EvGetViewData
  assume "intervalsFresh s"
  then show ?thesis using EvGetViewData by (simp add: getViewData_def Let_def intervalsFresh_def)
next
  case EvClear
  assume "intervalsFresh s"
  then show ?thesis using EvClear by (simp add: clear_def dispatch_def Let_def intervalsFresh_def)
next
  case (EvSwitchMode arg)
  assume "intervalsFresh s"
  then show ?thesis using EvSwitchMode
    by (simp add: switchMode_def applyMode_def Let_def intervalsFresh_def renderPreview_frame
        split: switch_arg.split)
next
  case (EvClick wid now)
  assume "intervalsFresh s"
  then show ?thesis using EvClick intervalsFresh_click by simp
next
  case (EvTick h now)
  assume "intervalsFresh s"
  then show ?thesis using EvTick intervalsFresh_tick by simp
qed

lemma intervalsFresh_run: "intervalsFresh s \<Longrightarrow> intervalsFresh (run parse evs s)"
  unfolding run_def
  by (induction evs arbitrary: s) (simp_all add: intervalsFresh_handle)

lemma intervalsFresh_initial: "intervalsFresh (initialView st fl chn)"
  by (simp add: intervalsFresh_def initialView_def)

lemma fresh_handle_unused: "intervalsFresh s \<Longrightarrow> map_of (intervals s) (nextHandle s) = None"
  by (auto simp add: intervalsFresh_def list_all_iff map_of_eq_None_iff)

lemma formatTimeForTimer_zero: "formatTimeForTimer 0 = ''0:00''"
  by code_simp

lemma zero_timer_expires:
  assumes f: "intervalsFresh s" and w: "wid < length (widgets s)"
    and z: "w_seconds (widgets s ! wid) = 0" and i: "w_end (widgets s ! wid) = None"
    and t: "now \<le> later"
  shows "w_end (widgets (click wid now s) ! wid) = Some now
    \<and> w_interval (widgets (click wid now s) ! wid) = Some (nextHandle s)
    \<and> w_end (widgets (tick (nextHandle s) later (click wid now s)) ! wid) = None
    \<and> w_interval (widgets (tick (nextHandle s) later (click wid now s)) ! wid) = None
    \<and> map_of (intervals (tick (nextHandle s) later (click wid now s))) (nextHandle s) = None
    \<and> alarmAudioPlaying (tick (nextHandle s) later (click wid now s))
    \<and> notifications (tick (nextHandle s) later (click wid now s)) =
        notifications s @
          [(''Timer Complete'',
            (if w_name (widgets s ! wid) = [] then ''Timer'' else w_name (widgets s ! wid)) @
              '' for 0:00 is done!'')]"
proof -
  let ?h = "nextHandle s"
  let ?c = "click wid now s"
  have c: "?c = s\<lparr>widgets := (widgets s)[wid := (widgets s ! wid)\<lparr>w_end := Some now,
               w_parent := map_option (addClass ''running'') (w_parent (widgets s ! wid)),
               w_interval := Some ?h\<rparr>],
             intervals := intervals s @ [(?h, wid)], nextHandle := ?h + 1\<rparr>"
    using w z i by (simp add: click_def Let_def)
  have m: "map_of (intervals ?c) ?h = Some wid"
    using fresh_handle_unused [OF f] by (simp add: c map_add_def)
  have r: "(now - later + 500) div 1000 \<le> 0"
    using t by simp
  have k: "tick ?h later ?c = updateTimer wid 0 now later (w_name (widgets s ! wid)) ?c"
    using m w z by (simp add: tick_def Let_def) (simp add: c)
  have g: "map_of (clearInterval ?h (intervals s @ [(?h, wid)])) ?h = None"
    using clearInterval_gone [of ?h "intervals s @ [(?h, wid)]"]
    by (simp add: map_of_eq_None_iff)
  have u: "updateTimer wid 0 now later nm ?c =
      (stop wid ?c)\<lparr>alarmAudioPlaying := True,
        notifications := notifications s @ [(''Timer Complete'',
           (if nm = [] then ''Timer'' else nm) @ '' for 0:00 is done!'')]\<rparr>" for nm
    using r by (simp add: updateTimer_def Let_def formatTimeForTimer_zero) (simp add: c stop_def Let_def)
  have s1: "w_end (widgets (stop wid ?c) ! wid) = None" "w_interval (widgets (stop wid ?c) ! wid) = None"
    using w by (simp_all add: c stop_def Let_def)
  have s2: "map_of (intervals (stop wid ?c)) ?h = None"
    using w g by (simp add: c stop_def Let_def)
  show ?thesis
    unfolding k u using s1 s2 w by (simp add: c)
qed

text \<open>
  Claim C10. An inline timer without an amount is rendered as a widget bound with zero seconds
  and with the name of the timer, the empty string when it has none. In any state the view can
  reach, a click at time \<open>now\<close> on such a widget, idle, sets its deadline to \<open>now\<close>,
  and the first firing of its interval, at any later time, finds nothing remaining: the
  widget is idle again, its interval is cleared, the alarm plays and a completion notification
  for \<open>0:00\<close> is shown.
\<close>

theorem absent_amount_timer_expires_at_once:
  "(tm_amount t = None \<longrightarrow>
      fst (renderPart (PTimer t) (ns, ws)) = ns @ [TimerSpan (length ws)]
      \<and> w_seconds (snd (renderPart (PTimer t) (ns, ws)) ! length ws) = 0
      \<and> w_name (snd (renderPart (PTimer t) (ns, ws)) ! length ws) =
          (case tm_name t of None \<Rightarrow> [] | Some n \<Rightarrow> n))
   \<and> (s = run parse evs (initialView st fl chn) \<and> wid < length (widgets s)
        \<and> w_seconds (widgets s ! wid) = 0 \<and> w_end (widgets s ! wid) = None
        \<and> now \<le> later \<longrightarrow>
      w_end (widgets (click wid now s) ! wid) = Some now
      \<and> w_interval (widgets (click wid now s) ! wid) = Some (nextHandle s)
      \<and> w_end (widgets (tick (nextHandle s) later (click wid now s)) ! wid) = None
      \<and> w_interval (widgets (tick (nextHandle s) later (click wid now s)) ! wid) = None
      \<and> map_of (intervals (tick (nextHandle s) later (click wid now s))) (nextHandle s) = None
      \<and> alarmAudioPlaying (tick (nextHandle s) later (click wid now s))
      \<and> notifications (tick (nextHandle s) later (click wid now s)) =
          notifications s @
            [(''Timer Complete'',
              (if w_name (widgets s ! wid) = [] then ''Timer'' else w_name (widgets s ! wid)) @
                '' for 0:00 is done!'')])"
proof -
  have a: "tm_amount t = None \<longrightarrow>
      fst (renderPart (PTimer t) (ns, ws)) = ns @ [TimerSpan (length ws)]
      \<and> w_seconds (snd (renderPart (PTimer t) (ns, ws)) ! length ws) = 0
      \<and> w_name (snd (renderPart (PTimer t) (ns, ws)) ! length ws) =
          (case tm_name t of None \<Rightarrow> [] | Some n \<Rightarrow> n)"
    by (simp add: Let_def makeTimer_def orEmpty_def)
  have b: "s = run parse evs (initialView st fl chn) \<and> wid < length (widgets s)
        \<and> w_seconds (widgets s ! wid) = 0 \<and> w_end (widgets s ! wid) = None
        \<and> now \<le> later \<longrightarrow>
      w_end (widgets (click wid now s) ! wid) = Some now
      \<and> w_interval (widgets (click wid now s) ! wid) = Some (nextHandle s)
      \<and> w_end (widgets (tick (nextHandle s) later (click wid now s)) ! wid) = None
      \<and> w_interval (widgets (tick (nextHandle s) later (click wid now s)) ! wid) = None
      \<and> map_of (intervals (tick (nextHandle s) later (click wid now s))) (nextHandle s) = None
      \<and> alarmAudioPlaying (tick (nextHandle s) later (click wid now s))
      \<and> notifications (tick (nextHandle s) later (click wid now s)) =
          notifications s @
            [(''Timer Complete'',
              (if w_name (widgets s ! wid) = [] then ''Timer'' else w_name (widgets s ! wid)) @
                '' for 0:00 is done!'')]"
  proof (intro impI, elim conjE)
    assume s: "s = run parse evs (initialView st fl chn)"
      and w: "wid < length (widgets s)" and z: "w_seconds (widgets s ! wid) = 0"
      and i: "w_end (widgets s ! wid) = None" and t: "now \<le> later"
    have f: "intervalsFresh s"
      unfolding s by (rule intervalsFresh_run [OF intervalsFresh_initial])
    show "w_end (widgets (click wid now s) ! wid) = Some now
      \<and> w_interval (widgets (click wid now s) ! wid) = Some (nextHandle s)
      \<and> w_end (widgets (tick (nextHandle s) later (click wid now s)) ! wid) = None
      \<and> w_interval (widgets (tick (nextHandle s) later (click wid now s)) ! wid) = None
      \<and> map_of (intervals (tick (nextHandle s) later (click wid now s))) (nextHandle s) = None
      \<and> alarmAudioPlaying (tick (nextHandle s) later (click wid now s))
      \<and> notifications (tick (nextHandle s) later (click wid now s)) =
          notifications s @
            [(''Timer Complete'',
              (if w_name (widgets s ! wid) = [] then ''Timer'' else w_name (widgets s ! wid)) @
                '' for 0:00 is done!'')]"
      by (rule zero_timer_expires [OF f w z i t])
  qed
  show ?thesis
    by (rule conjI [OF a b])
qed

theorem absent_amount_timer_expires_at_once_witness:
  "tm_amount restTimer = None
   \<and> w_seconds (snd (renderPart (PTimer restTimer) ([], [])) ! 0) = 0
   \<and> w_name (snd (renderPart (PTimer restTimer) ([], [])) ! 0) = []
   \<and> 0 < length (widgets restView) \<and> w_seconds (widgets restView ! 0) = 0
   \<and> w_end (widgets restView ! 0) = None \<and> (5000 :: int) \<le> 5100
   \<and> w_end (widgets (click 0 5000 restView) ! 0) = Some 5000
   \<and> w_end (widgets (tick 1 5100 (click 0 5000 restView)) ! 0) = None
   \<and> alarmAudioPlaying (tick 1 5100 (click 0 5000 restView))
   \<and> notifications (tick 1 5100 (click 0 5000 restView)) =
       [(''Timer Complete'', ''Timer for 0:00 is done!'')]"
proof -
  have h: "tm_amount restTimer = None" "0 < length (widgets restView)"
    "w_seconds (widgets restView ! 0) = 0" "w_end (widgets restView ! 0) = None"
    "tm_name restTimer = None"
    by code_simp+
  have e: "nextHandle restView = 1" "notifications restView = []"
    "w_name (widgets restView ! 0) = []"
    by code_simp+
  have t: "(5000 :: int) \<le> 5100"
    by simp
  show ?thesis
    using absent_amount_timer_expires_at_once [of restTimer "[]" "[]" restView restParse
        "[EvSetViewData ''rest'' False, EvSwitchMode (Mode Preview)]" allOn None None 0 5000 5100]
      h e t
    by (simp add: restView_def [symmetric])
qed

subsection \<open>The formatters\<close>

lemma nat_to_string_small: "n < 10 \<Longrightarrow> nat_to_string n = [digit_char n]"
  by (simp add: nat_to_string.simps)

lemma nat_to_string_two: "10 \<le> n \<Longrightarrow> n < 100 \<Longrightarrow> nat_to_string n = [digit_char (n div 10), digit_char (n mod 10)]"
  by (subst nat_to_string.simps) (simp add: nat_to_string_small)

lemma digit_char_zero: "digit_char 0 = CHR ''0''"
  by (simp add: digit_char_def)

lemma pad_two: "n < 100 \<Longrightarrow> padStart 2 (CHR ''0'') (nat_to_string n) = [digit_char (n div 10), digit_char (n mod 10)]"
proof (cases "n < 10")
  case True
  then show ?thesis by (simp add: padStart_def nat_to_string_small digit_char_zero)
next
  case False
  assume "n < 100"
  with False show ?thesis by (simp add: padStart_def nat_to_string_two)
qed

lemma js_rem_nonneg: "0 \<le> a \<Longrightarrow> 0 < b \<Longrightarrow> js_rem a b = a mod b"
  by (cases "a = 0") (simp_all add: js_rem_def)

lemma number_to_string_nonneg: "0 \<le> i \<Longrightarrow> number_to_string i = nat_to_string (nat i)"
  by (simp add: number_to_string_def)

lemma digit_char_digit: "d < 10 \<Longrightarrow> digit_char d \<in> set ''0123456789''"
  unfolding digit_char_def by (rule nth_mem) simp

lemma nat_to_string_digits: "set (nat_to_string n) \<subseteq> set ''0123456789''"
proof (induction n rule: nat_to_string.induct)
  case (1 n)
  show ?case
  proof (cases "n < 10")
    case True
    then show ?thesis using digit_char_digit [of n] by (simp add: nat_to_string_small)
  next
    case False
    have "n mod 10 < 10" by simp
    from digit_char_digit [OF this] 1 False show ?thesis
      by (subst nat_to_string.simps) simp
  qed
qed

lemma no_s_in_digits: "CHR ''s'' \<notin> set (nat_to_string n)"
  using nat_to_string_digits [of n] by auto

lemma floor_whole_quotient: "0 < b \<Longrightarrow> \<lfloor>(of_int t :: rat) / of_int b\<rfloor> = t div b"
  by (simp add: floor_divide_of_int_eq)

lemma js_rem_number_whole:
  assumes "0 \<le> t" "0 < b"
  shows "js_rem_number (of_int t) (of_int b) = of_int (t mod b)"
proof -
  have q: "\<not> (of_int t :: rat) / of_int b < 0"
    using assms by (simp add: divide_less_0_iff)
  have "(of_int t :: rat) - of_int b * of_int (t div b) = of_int (t - b * (t div b))"
    by simp
  also have "t - b * (t div b) = t mod b"
    by (simp add: minus_mult_div_eq_mod)
  finally show ?thesis
    using q by (simp add: js_rem_number_def floor_divide_of_int_eq)
qed

lemma js_number_to_string_whole: "0 \<le> n \<Longrightarrow> js_number_to_string (of_int n) = nat_to_string (nat n)"
  by (simp add: js_number_to_string_def Let_def)

lemma formatTimeForTimer_hours:
  assumes "3600 \<le> t"
  shows "formatTimeForTimer (of_int t) =
     nat_to_string (nat (t div 3600)) @ '':'' @
     [digit_char (nat (t mod 3600 div 60) div 10), digit_char (nat (t mod 3600 div 60) mod 10)] @ '':'' @
     [digit_char (nat (t mod 60) div 10), digit_char (nat (t mod 60) mod 10)]"
proof -
  have h: "t div 3600 > 0" using assms by simp
  have f: "\<lfloor>(of_int t :: rat) / 3600\<rfloor> = t div 3600"
    using floor_whole_quotient [of 3600 t] by simp
  have r1: "js_rem_number (of_int t) 3600 = of_int (t mod 3600)"
    using js_rem_number_whole [of t 3600] assms by simp
  have r2: "js_rem_number (of_int t) 60 = of_int (t mod 60)"
    using js_rem_number_whole [of t 60] assms by simp
  have g: "\<lfloor>(of_int (t mod 3600) :: rat) / 60\<rfloor> = t mod 3600 div 60"
    using floor_whole_quotient [of 60 "t mod 3600"] by simp
  have m: "0 \<le> t mod 3600 div 60" "nat (t mod 3600 div 60) < 100" by simp_all
  have s: "0 \<le> t mod 60" "nat (t mod 60) < 100" by simp_all
  show ?thesis using h
    by (simp add: formatTimeForTimer_def Let_def f r1 r2 g number_to_string_nonneg
        js_number_to_string_whole pad_two [OF m(2)] pad_two [OF s(2)])
qed

lemma formatTimeForTimer_minutes:
  assumes "0 \<le> t" "t < 3600"
  shows "formatTimeForTimer (of_int t) =
     nat_to_string (nat (t div 60)) @ '':'' @
     [digit_char (nat (t mod 60) div 10), digit_char (nat (t mod 60) mod 10)]"
proof -
  have h: "\<not> t div 3600 > 0" using assms by simp
  have f: "\<lfloor>(of_int t :: rat) / 3600\<rfloor> = t div 3600"
    using floor_whole_quotient [of 3600 t] by simp
  have r1: "js_rem_number (of_int t) 3600 = of_int t"
    using js_rem_number_whole [of t 3600] assms by simp
  have r2: "js_rem_number (of_int t) 60 = of_int (t mod 60)"
    using js_rem_number_whole [of t 60] assms by simp
  have g: "\<lfloor>(of_int t :: rat) / 60\<rfloor> = t div 60"
    using floor_whole_quotient [of 60 t] by simp
  have s: "0 \<le> t mod 60" "nat (t mod 60) < 100" by simp_all
  have d: "0 \<le> t div 60" using assms by simp
  show ?thesis using h d
    by (simp add: formatTimeForTimer_def Let_def f r1 r2 g number_to_string_nonneg
        js_number_to_string_whole pad_two [OF s(2)])
qed

lemma formatTime_hours:
  assumes "3600 \<le> t"
  shows "formatTime t b = nat_to_string (nat (t div 3600)) @ ''h '' @ nat_to_string (nat (t mod 3600 div 60)) @ ''m'' @
     (if b then '' '' @ nat_to_string (nat (t mod 60)) @ ''s'' else [])"
proof -
  have h: "t div 3600 > 0" using assms by simp
  show ?thesis using assms h
    by (simp add: formatTime_def Let_def js_rem_nonneg number_to_string_nonneg)
qed

lemma formatTime_minutes:
  assumes "60 \<le> t" "t < 3600"
  shows "formatTime t b = nat_to_string (nat (t div 60)) @ ''m'' @
     (if b then '' '' @ nat_to_string (nat (t mod 60)) @ ''s'' else [])"
proof -
  have h: "\<not> t div 3600 > 0" "t div 60 > 0" using assms by simp_all
  show ?thesis using assms h
    by (simp add: formatTime_def Let_def js_rem_nonneg number_to_string_nonneg)
qed

lemma formatTime_seconds:
  assumes "t < 60"
  shows "formatTime t b = number_to_string (js_rem t 60) @ ''s''"
proof -
  have h: "\<not> t div 3600 > 0" using assms by simp
  have "js_rem t 3600 < 60"
  proof (cases "0 \<le> t")
    case True
    then show ?thesis using assms by (simp add: js_rem_nonneg)
  next
    case False
    then have "js_rem t 3600 \<le> 0" by (simp add: js_rem_def sgn_if)
    then show ?thesis by simp
  qed
  then have "\<not> js_rem t 3600 div 60 > 0" by simp
  then show ?thesis using h
    by (simp add: formatTime_def Let_def)
qed

subsection \<open>The sections of the preview\<close>

lemma bindFile_frame:
  "timers (bindFile doc f r) = timers r"
  "ingredients (bindFile doc f r) = ingredients r"
  "cookware (bindFile doc f r) = cookware r"
  "length (steps (bindFile doc f r)) = length (steps r)"
  by (simp_all add: bindFile_def split: option.split binding.split)

lemma fold_bindFile_frame:
  "timers (fold (bindFile doc) fs r) = timers r \<and>
   ingredients (fold (bindFile doc) fs r) = ingredients r \<and>
   cookware (fold (bindFile doc) fs r) = cookware r \<and>
   length (steps (fold (bindFile doc) fs r)) = length (steps r)"
  by (induction fs arbitrary: r) (simp_all add: bindFile_frame)

lemma bindImages_frame:
  "timers (bindImages fl chn r) = timers r"
  "ingredients (bindImages fl chn r) = ingredients r"
  "cookware (bindImages fl chn r) = cookware r"
  "length (steps (bindImages fl chn r)) = length (steps r)"
  by (simp_all add: bindImages_def fold_bindFile_frame split: option.split)

lemma calculateTotalTime_bind: "calculateTotalTime (bindImages fl chn r) = calculateTotalTime r"
  by (simp add: calculateTotalTime_def bindImages_frame)

lemma hasClass_append: "hasClass c (xs @ ys) = (hasClass c xs \<or> hasClass c ys)"
  by (auto simp add: hasClass_def)

lemma hasClass_Nil: "hasClass c [] = False"
  by (simp add: hasClass_def)

lemma hasClass_Cons: "hasClass c (n # ns) = (nodeClass n = c \<or> hasClass c ns)"
  by (auto simp add: hasClass_def)

lemma section_classes:
  "map nodeClass (ingredientsSection r) = [''ingredients-header'', ''ingredients'']"
  "map nodeClass (cookwareSection r) = [''cookware-header'', ''cookware'']"
  "map nodeClass (timersSection r) = [''timer-header'', ''timers'']"
  "map nodeClass (totalTimeSection r) = (if calculateTotalTime r > 0 then [''time-header'', ''time''] else [])"
  by (simp_all add: ingredientsSection_def cookwareSection_def timersSection_def totalTimeSection_def Let_def)

lemma renderPreview_Some:
  assumes "recipe s = Some r0"
  shows "previewEl (renderPreview s) =
      (if showImages (settings s) then
         (case recipeImage (boundRecipe s r0) of None \<Rightarrow> [] | Some f \<Rightarrow> [Img ''main-image'' f])
       else []) @
      (if showIngredientList (settings s) then ingredientsSection (boundRecipe s r0) else []) @
      (if showCookwareList (settings s) then cookwareSection (boundRecipe s r0) else []) @
      (if showTimersList (settings s) then timersSection (boundRecipe s r0) else []) @
      (if showTotalTime (settings s) then totalTimeSection (boundRecipe s r0) else []) @
      [Elem ''h2'' ''method-header'' [Txt ''Method''],
       Elem ''ol'' ''method''
         (fst (renderSteps (showImages (settings s)) (steps (boundRecipe s r0)) (widgets s)))]"
    and "recipe (renderPreview s) = Some (boundRecipe s r0)"
  using assms by (simp_all add: renderPreview_def boundRecipe_def Let_def split: prod.split)

lemma top_classes:
  assumes "recipe s = Some r0"
  shows "map nodeClass (previewEl (renderPreview s)) =
      (if showImages (settings s) \<and> recipeImage (boundRecipe s r0) \<noteq> None then [''main-image''] else []) @
      (if showIngredientList (settings s) then [''ingredients-header'', ''ingredients''] else []) @
      (if showCookwareList (settings s) then [''cookware-header'', ''cookware''] else []) @
      (if showTimersList (settings s) then [''timer-header'', ''timers''] else []) @
      (if showTotalTime (settings s) \<and> calculateTotalTime r0 > 0 then [''time-header'', ''time''] else []) @
      [''method-header'', ''method'']"
proof -
  have t: "calculateTotalTime (boundRecipe s r0) = calculateTotalTime r0"
    by (simp add: boundRecipe_def calculateTotalTime_bind)
  show ?thesis
    unfolding renderPreview_Some(1) [OF assms]
    by (simp add: section_classes t totalTimeSection_def Let_def split: option.split)
qed

lemma renderStep_image:
  "hasClass ''step-image'' (childNodes (fst (renderStep b st ws))) = (b \<and> st_image st \<noteq> None)"
  by (cases "st_image st") (simp_all add: renderStep_def Let_def hasClass_def split: prod.split)

lemma renderSteps_length: "length (fst (renderSteps b sts ws)) = length sts"
proof (induction sts arbitrary: ws)
  case Nil
  then show ?case by simp
next
  case (Cons st sts)
  from Cons.IH [of "snd (renderStep b st ws)"] show ?case
    by (auto split: prod.split)
qed

lemma renderSteps_nth:
  "i < length sts \<Longrightarrow> \<exists>ws'. fst (renderSteps b sts ws) ! i = fst (renderStep b (sts ! i) ws')"
proof (induction sts arbitrary: ws i)
  case Nil
  then show ?case by simp
next
  case (Cons st sts)
  show ?case
  proof (cases i)
    case 0
    then show ?thesis by (auto split: prod.split intro: exI [of _ ws])
  next
    case (Suc j)
    with Cons.prems have "j < length sts" by simp
    from Cons.IH [OF this, of "snd (renderStep b st ws)"] Suc show ?thesis
      by (auto split: prod.split)
  qed
qed

lemma renderSteps_image:
  "i < length sts \<Longrightarrow>
   hasClass ''step-image'' (childNodes (fst (renderSteps b sts ws) ! i)) = (b \<and> st_image (sts ! i) \<noteq> None)"
  using renderSteps_nth [of i sts b ws] by (auto simp add: renderStep_image)

text \<open>
  Against claim C3 as stated: the sample recipe has no ingredient and no cookware, both lists
  are switched on, and the preview holds the headers and the lists of both sections.
\<close>

theorem empty_list_section_counterexample:
  "recipe previewView = Some boilRecipe
   \<and> showIngredientList (settings previewView) \<and> ingredients boilRecipe = []
   \<and> showCookwareList (settings previewView) \<and> cookware boilRecipe = []
   \<and> hasClass ''ingredients-header'' (previewEl (renderPreview previewView))
   \<and> hasClass ''ingredients'' (previewEl (renderPreview previewView))
   \<and> hasClass ''cookware-header'' (previewEl (renderPreview previewView))"
  by code_simp

text \<open>
  Claim C3, amended. For every setting of the five toggles and every recipe, the render works
  on the recipe with its images bound, and in the preview: the main image appears iff
  \<open>showImages\<close> is on and the recipe has a main image; the ingredients, cookware and timers
  sections appear iff their toggle is on, whether or not their list is empty; the total-time
  section appears iff \<open>showTotalTime\<close> is on and the total time is positive; the method
  section always appears, with one item for each step; and the item of a step holds a step
  image iff \<open>showImages\<close> is on and the step has an image.
\<close>

theorem sections_follow_toggles:
  assumes "recipe s = Some r0"
  shows "recipe (renderPreview s) = Some (boundRecipe s r0)
   \<and> (hasClass ''main-image'' (previewEl (renderPreview s)) \<longleftrightarrow>
        showImages (settings s) \<and> recipeImage (boundRecipe s r0) \<noteq> None)
   \<and> (hasClass ''ingredients-header'' (previewEl (renderPreview s)) \<longleftrightarrow> showIngredientList (settings s))
   \<and> (hasClass ''ingredients'' (previewEl (renderPreview s)) \<longleftrightarrow> showIngredientList (settings s))
   \<and> (hasClass ''cookware-header'' (previewEl (renderPreview s)) \<longleftrightarrow> showCookwareList (settings s))
   \<and> (hasClass ''cookware'' (previewEl (renderPreview s)) \<longleftrightarrow> showCookwareList (settings s))
   \<and> (hasClass ''timer-header'' (previewEl (renderPreview s)) \<longleftrightarrow> showTimersList (settings s))
   \<and> (hasClass ''timers'' (previewEl (renderPreview s)) \<longleftrightarrow> showTimersList (settings s))
   \<and> (hasClass ''time-header'' (previewEl (renderPreview s)) \<longleftrightarrow>
        showTotalTime (settings s) \<and> calculateTotalTime r0 > 0)
   \<and> (hasClass ''time'' (previewEl (renderPreview s)) \<longleftrightarrow>
        showTotalTime (settings s) \<and> calculateTotalTime r0 > 0)
   \<and> hasClass ''method-header'' (previewEl (renderPreview s))
   \<and> hasClass ''method'' (previewEl (renderPreview s))
   \<and> length (childNodes (last (previewEl (renderPreview s)))) = length (steps r0)
   \<and> (\<forall>i < length (steps r0).
        hasClass ''step-image'' (childNodes (childNodes (last (previewEl (renderPreview s))) ! i)) \<longleftrightarrow>
          showImages (settings s) \<and> st_image (steps (boundRecipe s r0) ! i) \<noteq> None)"
proof -
  note tc = top_classes [OF assms]
  have n: "length (steps (boundRecipe s r0)) = length (steps r0)"
    by (simp add: boundRecipe_def bindImages_frame)
  have l: "childNodes (last (previewEl (renderPreview s))) =
      fst (renderSteps (showImages (settings s)) (steps (boundRecipe s r0)) (widgets s))"
    unfolding renderPreview_Some(1) [OF assms] by simp
  have 1: "hasClass ''main-image'' (previewEl (renderPreview s)) \<longleftrightarrow>
        showImages (settings s) \<and> recipeImage (boundRecipe s r0) \<noteq> None"
    unfolding hasClass_def tc by simp
  have 2: "hasClass ''ingredients-header'' (previewEl (renderPreview s)) \<longleftrightarrow> showIngredientList (settings s)"
    "hasClass ''ingredients'' (previewEl (renderPreview s)) \<longleftrightarrow> showIngredientList (settings s)"
    unfolding hasClass_def tc by simp_all
  have 3: "hasClass ''cookware-header'' (previewEl (renderPreview s)) \<longleftrightarrow> showCookwareList (settings s)"
    "hasClass ''cookware'' (previewEl (renderPreview s)) \<longleftrightarrow> showCookwareList (settings s)"
    unfolding hasClass_def tc by simp_all
  have 4: "hasClass ''timer-header'' (previewEl (renderPreview s)) \<longleftrightarrow> showTimersList (settings s)"
    "hasClass ''timers'' (previewEl (renderPreview s)) \<longleftrightarrow> showTimersList (settings s)"
    unfolding hasClass_def tc by simp_all
  have 5: "hasClass ''time-header'' (previewEl (renderPreview s)) \<longleftrightarrow>
        showTotalTime (settings s) \<and> calculateTotalTime r0 > 0"
    "hasClass ''time'' (previewEl (renderPreview s)) \<longleftrightarrow>
        showTotalTime (settings s) \<and> calculateTotalTime r0 > 0"
    unfolding hasClass_def tc by simp_all
  have 6: "hasClass ''method-header'' (previewEl (renderPreview s))"
    "hasClass ''method'' (previewEl (renderPreview s))"
    unfolding hasClass_def tc by simp_all
  have 7: "length (childNodes (last (previewEl (renderPreview s)))) = length (steps r0)"
    unfolding l by (simp add: renderSteps_length n)
  have 8: "\<forall>i < length (steps r0).
        hasClass ''step-image'' (childNodes (childNodes (last (previewEl (renderPreview s))) ! i)) \<longleftrightarrow>
          showImages (settings s) \<and> st_image (steps (boundRecipe s r0) ! i) \<noteq> None"
    unfolding l using n by (simp add: renderSteps_image)
  show ?thesis
    using renderPreview_Some(2) [OF assms] 1 2 3 4 5 6 7 8 by blast
qed

theorem sections_follow_toggles_witness:
  "recipe galleryView = Some galleryRecipe
   \<and> hasClass ''main-image'' (previewEl (renderPreview galleryView))
   \<and> hasClass ''ingredients-header'' (previewEl (renderPreview galleryView))
   \<and> \<not> hasClass ''time-header'' (previewEl (renderPreview galleryView))
   \<and> hasClass ''method'' (previewEl (renderPreview galleryView))
   \<and> hasClass ''step-image''
        (childNodes (childNodes (last (previewEl (renderPreview galleryView))) ! 0))
   \<and> \<not> hasClass ''step-image''
        (childNodes (childNodes (last (previewEl (renderPreview galleryView))) ! 1))"
proof -
  have r: "recipe galleryView = Some galleryRecipe"
    by code_simp
  have h: "showImages (settings galleryView)" "showIngredientList (settings galleryView)"
    "recipeImage (boundRecipe galleryView galleryRecipe) \<noteq> None"
    "\<not> calculateTotalTime galleryRecipe > 0"
    "0 < length (steps galleryRecipe)" "1 < length (steps galleryRecipe)"
    "st_image (steps (boundRecipe galleryView galleryRecipe) ! 0) \<noteq> None"
    "\<not> st_image (steps (boundRecipe galleryView galleryRecipe) ! 1) \<noteq> None"
    by code_simp+
  show ?thesis
    using sections_follow_toggles [OF r] h r by blast
qed

text \<open>
  Claim C5. Without the flag, the formatter of the total time gives hours and minutes from an
  hour on, minutes alone from a minute on, and seconds alone below a minute; from a minute on
  its result holds no seconds, and the flag appends them. 125 seconds give \<open>2m\<close>, 3725 give
  \<open>1h 2m\<close>. A recipe whose total time is 0 has no total-time section in the preview.
\<close>

theorem formatTime_summary:
  "(3600 \<le> t \<longrightarrow>
      formatTime t False =
        nat_to_string (nat (t div 3600)) @ ''h '' @ nat_to_string (nat (t mod 3600 div 60)) @ ''m'')
   \<and> (60 \<le> t \<and> t < 3600 \<longrightarrow> formatTime t False = nat_to_string (nat (t div 60)) @ ''m'')
   \<and> (t < 60 \<longrightarrow> formatTime t b = number_to_string (js_rem t 60) @ ''s'')
   \<and> (0 \<le> t \<and> t < 60 \<longrightarrow> formatTime t b = nat_to_string (nat t) @ ''s'')
   \<and> (60 \<le> t \<longrightarrow>
        CHR ''s'' \<notin> set (formatTime t False)
        \<and> formatTime t True = formatTime t False @ '' '' @ nat_to_string (nat (t mod 60)) @ ''s'')
   \<and> formatTime 125 False = ''2m'' \<and> formatTime 3725 False = ''1h 2m''
   \<and> (recipe s = Some r0 \<and> calculateTotalTime r0 = 0 \<longrightarrow>
        \<not> hasClass ''time-header'' (previewEl (renderPreview s))
        \<and> \<not> hasClass ''time'' (previewEl (renderPreview s)))"
proof -
  have 1: "3600 \<le> t \<longrightarrow>
      formatTime t False =
        nat_to_string (nat (t div 3600)) @ ''h '' @ nat_to_string (nat (t mod 3600 div 60)) @ ''m''"
    by (simp add: formatTime_hours)
  have 2: "60 \<le> t \<and> t < 3600 \<longrightarrow> formatTime t False = nat_to_string (nat (t div 60)) @ ''m''"
    by (simp add: formatTime_minutes)
  have 3: "t < 60 \<longrightarrow> formatTime t b = number_to_string (js_rem t 60) @ ''s''"
    by (simp add: formatTime_seconds)
  have 4: "0 \<le> t \<and> t < 60 \<longrightarrow> formatTime t b = nat_to_string (nat t) @ ''s''"
    by (simp add: formatTime_seconds js_rem_nonneg number_to_string_nonneg)
  have 5: "60 \<le> t \<longrightarrow>
        CHR ''s'' \<notin> set (formatTime t False)
        \<and> formatTime t True = formatTime t False @ '' '' @ nat_to_string (nat (t mod 60)) @ ''s''"
  proof (cases "3600 \<le> t")
    case True
    then show ?thesis by (simp add: formatTime_hours no_s_in_digits)
  next
    case False
    then show ?thesis by (simp add: formatTime_minutes no_s_in_digits)
  qed
  have 6: "formatTime 125 False = ''2m''" "formatTime 3725 False = ''1h 2m''"
    by code_simp+
  have 7: "recipe s = Some r0 \<and> calculateTotalTime r0 = 0 \<longrightarrow>
        \<not> hasClass ''time-header'' (previewEl (renderPreview s))
        \<and> \<not> hasClass ''time'' (previewEl (renderPreview s))"
  proof (intro impI, elim conjE)
    assume r: "recipe s = Some r0" and z: "calculateTotalTime r0 = 0"
    show "\<not> hasClass ''time-header'' (previewEl (renderPreview s))
        \<and> \<not> hasClass ''time'' (previewEl (renderPreview s))"
      unfolding hasClass_def top_classes [OF r] using z by simp
  qed
  show ?thesis
    using 1 2 3 4 5 6 7 by blast
qed

theorem formatTime_summary_witness:
  "(3600 :: int) \<le> 3725
   \<and> formatTime 3725 False =
       nat_to_string (nat (3725 div 3600)) @ ''h '' @ nat_to_string (nat (3725 mod 3600 div 60)) @ ''m''
   \<and> CHR ''s'' \<notin> set (formatTime 3725 False)
   \<and> formatTime 3725 True = ''1h 2m 5s''
   \<and> (60 :: int) \<le> 125 \<and> (125 :: int) < 3600
   \<and> formatTime 125 False = nat_to_string (nat (125 div 60)) @ ''m''
   \<and> (0 :: int) \<le> 45 \<and> (45 :: int) < 60
   \<and> formatTime 45 False = nat_to_string (nat 45) @ ''s''
   \<and> formatTime 45 False = ''45s''
   \<and> recipe restView = Some restRecipe \<and> calculateTotalTime restRecipe = 0
   \<and> \<not> hasClass ''time-header'' (previewEl (renderPreview restView))"
proof -
  have r: "recipe restView = Some restRecipe" "calculateTotalTime restRecipe = 0"
    by code_simp+
  have h: "(3600 :: int) \<le> 3725" "(60 :: int) \<le> 3725" "(60 :: int) \<le> 125"
    "(125 :: int) < 3600" "(0 :: int) \<le> 45" "(45 :: int) < 60"
    by simp_all
  have e: "formatTime 3725 True = ''1h 2m 5s''" "formatTime 45 False = ''45s''"
    by code_simp+
  show ?thesis
    using formatTime_summary [of 3725 False restView restRecipe]
      formatTime_summary [of 125 False restView restRecipe]
      formatTime_summary [of 45 False restView restRecipe] r h e
    by blast
qed

text \<open>
  Against claim C6 as stated: a duration of one second and a half is written \<open>0:1.5\<close>, and
  one of an hour and half a second \<open>1:00:0.5\<close>; the seconds are not two digits.
\<close>

theorem fractional_seconds_counterexample:
  "formatTimeForTimer (3 / 2) = ''0:1.5'' \<and> formatTimeForTimer (7201 / 2) = ''1:00:0.5''"
  by code_simp

text \<open>
  Claim C6, amended. For every duration that is a whole number of seconds, zero or more, the
  formatter of the countdown writes one of an hour or more as the hours, a colon, two digits of minutes, a colon
  and two digits of seconds, and a shorter one as the minutes, a colon and two digits of
  seconds. 45 seconds give \<open>0:45\<close> and 3661 give \<open>1:01:01\<close>.
\<close>

theorem formatTimeForTimer_countdown:
  "(3600 \<le> t \<longrightarrow>
      formatTimeForTimer (of_int t) =
        nat_to_string (nat (t div 3600)) @ '':'' @
        [digit_char (nat (t mod 3600 div 60) div 10), digit_char (nat (t mod 3600 div 60) mod 10)] @
        '':'' @ [digit_char (nat (t mod 60) div 10), digit_char (nat (t mod 60) mod 10)])
   \<and> (0 \<le> t \<and> t < 3600 \<longrightarrow>
        formatTimeForTimer (of_int t) =
          nat_to_string (nat (t div 60)) @ '':'' @
          [digit_char (nat (t mod 60) div 10), digit_char (nat (t mod 60) mod 10)])
   \<and> formatTimeForTimer 45 = ''0:45'' \<and> formatTimeForTimer 3661 = ''1:01:01''"
proof -
  have e: "formatTimeForTimer 45 = ''0:45''" "formatTimeForTimer 3661 = ''1:01:01''"
    by code_simp+
  show ?thesis
    using formatTimeForTimer_hours [of t] formatTimeForTimer_minutes [of t] e by blast
qed

theorem formatTimeForTimer_countdown_witness:
  "(3600 :: int) \<le> 7325 \<and> formatTimeForTimer (of_int 7325) = ''2:02:05''
   \<and> (0 :: int) \<le> 754 \<and> (754 :: int) < 3600 \<and> formatTimeForTimer (of_int 754) = ''12:34''"
proof -
  have n: "nat_to_string 2 = ''2''" "nat_to_string 12 = ''12''"
    by code_simp+
  show ?thesis
    using formatTimeForTimer_countdown [of 7325] formatTimeForTimer_countdown [of 754] n
    by (simp add: digit_char_def)
qed

subsection \<open>The binding of images\<close>

lemma split_on_nonempty: "split_on c xs \<noteq> []"
  by (induction xs) (auto split: list.split)

lemma split_on_no_sep: "c \<notin> set xs \<Longrightarrow> split_on c xs = [xs]"
  by (induction xs) auto

lemma split_on_sep: "c \<in> set xs \<Longrightarrow> 2 \<le> length (split_on c xs)"
proof (induction xs)
  case Nil
  then show ?case by simp
next
  case (Cons x xs)
  show ?case
  proof (cases "x = c")
    case True
    have "1 \<le> length (split_on c xs)"
      using split_on_nonempty [of c xs] by (cases "split_on c xs") simp_all
    with True show ?thesis by simp
  next
    case False
    with Cons.prems have "c \<in> set xs" by simp
    from Cons.IH [OF this] False show ?thesis
      by (auto split: list.split)
  qed
qed

lemma split_on_single: "length (split_on c xs) = 1 \<longleftrightarrow> c \<notin> set xs"
  using split_on_sep [of c xs] split_on_no_sep [of c xs] by fastforce

lemma split_on_prefix: "c \<notin> set a \<Longrightarrow> split_on c (a @ c # rest) = a # split_on c rest"
proof (induction a)
  case Nil
  then show ?case by simp
next
  case (Cons x a)
  then show ?case by auto
qed

lemma split_two:
  assumes "c \<notin> set a"
  shows "length (split_on c (a @ c # rest)) = 2 \<longleftrightarrow> c \<notin> set rest"
  using split_on_single [of c rest] by (simp add: split_on_prefix [OF assms])

lemma split_second:
  assumes "c \<notin> set a" "c \<notin> set rest"
  shows "split_on c (a @ c # rest) ! 1 = rest"
  by (simp add: split_on_prefix [OF assms(1)] split_on_no_sep [OF assms(2)])

lemma startsWith_iff: "startsWith str p \<longleftrightarrow> (\<exists>rest. str = p @ rest)"
proof
  assume "startsWith str p"
  then have "str = p @ drop (length p) str"
    unfolding startsWith_def by (metis append_take_drop_id)
  then show "\<exists>rest. str = p @ rest" ..
next
  assume "\<exists>rest. str = p @ rest"
  then show "startsWith str p" by (auto simp add: startsWith_def)
qed

lemma stepIndex_suffix:
  assumes "CHR ''.'' \<notin> set d"
  shows "stepIndex (d @ ''.'' @ N) n = Some i \<longleftrightarrow>
         (CHR ''.'' \<notin> set N \<and> parseInt N = Some (int i) \<and> i < n)"
proof (cases "CHR ''.'' \<in> set N")
  case True
  then have "length (split_on (CHR ''.'') (d @ CHR ''.'' # N)) \<noteq> 2"
    using split_two [OF assms, of N] by simp
  then show ?thesis using True by (simp add: stepIndex_def Let_def)
next
  case False
  have l: "length (split_on (CHR ''.'') (d @ CHR ''.'' # N)) = 2"
    using split_two [OF assms, of N] False by simp
  have e: "split_on (CHR ''.'') (d @ CHR ''.'' # N) ! Suc 0 = N"
    using split_second [OF assms False] by simp
  show ?thesis using False
    by (auto simp add: stepIndex_def Let_def l e split: option.split)
qed

lemma step_binding_iff:
  assumes "CHR ''.'' \<notin> set (basename doc)"
  shows "(isOtherFile doc (TFile f) \<and> bindingTarget doc n f = Some (StepImage i)) \<longleftrightarrow>
     (name f \<noteq> name doc \<and> acceptedExtension f \<and> i < n \<and>
      (\<exists>N. basename f = basename doc @ ''.'' @ N \<and> CHR ''.'' \<notin> set N \<and> parseInt N = Some (int i)))"
proof
  assume a: "isOtherFile doc (TFile f) \<and> bindingTarget doc n f = Some (StepImage i)"
  then have acc: "acceptedExtension f" and ne: "basename f \<noteq> basename doc"
    and si: "stepIndex (basename f) n = Some i"
    by (auto simp add: bindingTarget_def split: if_splits)
  from a ne obtain N where N: "basename f = (basename doc @ ''.'') @ N"
    by (auto simp add: startsWith_iff)
  then have N': "basename f = basename doc @ ''.'' @ N" by simp
  from si stepIndex_suffix [OF assms, of N n i] N'
  have "CHR ''.'' \<notin> set N \<and> parseInt N = Some (int i) \<and> i < n" by simp
  with a acc N' show "name f \<noteq> name doc \<and> acceptedExtension f \<and> i < n \<and>
      (\<exists>N. basename f = basename doc @ ''.'' @ N \<and> CHR ''.'' \<notin> set N \<and> parseInt N = Some (int i))"
    by auto
next
  assume b: "name f \<noteq> name doc \<and> acceptedExtension f \<and> i < n \<and>
      (\<exists>N. basename f = basename doc @ ''.'' @ N \<and> CHR ''.'' \<notin> set N \<and> parseInt N = Some (int i))"
  then obtain N where N: "basename f = basename doc @ ''.'' @ N" "CHR ''.'' \<notin> set N"
    "parseInt N = Some (int i)" by blast
  have ne: "basename f \<noteq> basename doc" using N(1) by simp
  have sw: "startsWith (basename f) (basename doc @ ''.'')"
    unfolding startsWith_iff using N(1) by simp
  have si: "stepIndex (basename f) n = Some i"
    using stepIndex_suffix [OF assms, of N n i] N b by simp
  show "isOtherFile doc (TFile f) \<and> bindingTarget doc n f = Some (StepImage i)"
    using b ne sw si by (simp add: bindingTarget_def)
qed

lemma digit_cases: "d < 10 \<Longrightarrow> d = 0 \<or> d = 1 \<or> d = 2 \<or> d = 3 \<or> d = 4 \<or> d = 5 \<or> d = 6 \<or> d = 7 \<or> d = 8 \<or> d = (9::nat)"
  by arith

lemma radixDigit_digit_char: "d < 10 \<Longrightarrow> radixDigit 10 (digit_char d) = Some d"
  using digit_cases [of d]
  by (auto simp add: radixDigit_def digitValue_def digit_char_def)

lemma digit_code: "c \<in> set ''0123456789'' \<Longrightarrow> 48 \<le> (of_char c :: nat) \<and> (of_char c :: nat) \<le> 57"
  by auto

lemma whiteSpaceCodes_heads:
  "\<forall>p \<in> set whiteSpaceCodes. p \<noteq> [] \<and> ((of_char (hd p) :: nat) < 48 \<or> 57 < (of_char (hd p) :: nat))"
  by (simp add: whiteSpaceCodes_def)

lemma digit_not_white:
  assumes "c \<in> set ''0123456789''"
  shows "leadingWhiteSpace (c # cs) = 0"
proof -
  have "take (length p) (c # cs) \<noteq> p" if p: "p \<in> set whiteSpaceCodes" for p
  proof
    assume e: "take (length p) (c # cs) = p"
    from whiteSpaceCodes_heads p have n: "p \<noteq> []"
      and h: "(of_char (hd p) :: nat) < 48 \<or> 57 < (of_char (hd p) :: nat)" by auto
    from n obtain a q where pq: "p = a # q" by (cases p) auto
    from e pq have "a = c" by simp
    with h pq digit_code [OF assms] show False by simp
  qed
  then have "find (\<lambda>p. take (length p) (c # cs) = p) whiteSpaceCodes = None"
    by (simp add: find_None_iff)
  then show ?thesis by (simp add: leadingWhiteSpace_def)
qed

lemma skipWhiteSpace_digit: "c \<in> set ''0123456789'' \<Longrightarrow> skipWhiteSpace (c # cs) = c # cs"
  by (simp add: digit_not_white)

lemma decimal_char_facts:
  assumes "c \<in> set ''0123456789''"
  shows "c \<noteq> CHR ''-''" "c \<noteq> CHR ''+''" "c \<noteq> CHR ''x''" "c \<noteq> CHR ''X''"
    "c \<noteq> CHR ''.''" "radixDigit 10 c \<noteq> None"
  using assms by (auto simp add: radixDigit_def digitValue_def)

lemma parseInt_decimal:
  assumes "ds \<noteq> []" and "set ds \<subseteq> set ''0123456789''"
  shows "parseInt ds = Some (int (digitsValue 10 ds))"
proof -
  obtain c cs where ds: "ds = c # cs" using assms(1) by (cases ds) auto
  have c: "c \<in> set ''0123456789''" using assms(2) ds by auto
  have d1: "skipWhiteSpace ds = ds"
    unfolding ds by (rule skipWhiteSpace_digit [OF c])
  have t1: "take 1 ds \<noteq> ''-''" "take 1 ds \<noteq> ''+''"
    using decimal_char_facts(1,2) [OF c] by (simp_all add: ds)
  have t2: "take 2 ds \<noteq> ''0x''" "take 2 ds \<noteq> ''0X''"
  proof -
    show "take 2 ds \<noteq> ''0x''"
    proof
      assume "take 2 ds = ''0x''"
      then have "CHR ''x'' \<in> set (take 2 ds)" by simp
      then have "CHR ''x'' \<in> set ds" by (rule in_set_takeD)
      then have "CHR ''x'' \<in> set ''0123456789''" using assms(2) by blast
      from decimal_char_facts(3) [OF this] show False by simp
    qed
    show "take 2 ds \<noteq> ''0X''"
    proof
      assume "take 2 ds = ''0X''"
      then have "CHR ''X'' \<in> set (take 2 ds)" by simp
      then have "CHR ''X'' \<in> set ds" by (rule in_set_takeD)
      then have "CHR ''X'' \<in> set ''0123456789''" using assms(2) by blast
      from decimal_char_facts(4) [OF this] show False by simp
    qed
  qed
  have tw: "takeWhile (\<lambda>c. radixDigit 10 c \<noteq> None) ds = ds"
    using assms(2) decimal_char_facts(6) by (simp add: takeWhile_eq_all_conv subset_iff)
  show ?thesis
    by (simp only: parseInt_def Let_def d1 t1 t2 tw assms(1) simp_thms if_False) simp
qed

lemma digitsValue_snoc:
  "digitsValue r (ds @ [c]) = digitsValue r ds * r + (case radixDigit r c of None \<Rightarrow> 0 | Some d \<Rightarrow> d)"
  by (simp add: digitsValue_def)

lemma digitsValue_nat_to_string: "digitsValue 10 (nat_to_string k) = k"
proof (induction k rule: nat_to_string.induct)
  case (1 n)
  show ?case
  proof (cases "n < 10")
    case True
    then show ?thesis
      using digitsValue_snoc [of 10 "[]" "digit_char n"]
      by (simp add: nat_to_string_small radixDigit_digit_char) (simp add: digitsValue_def)
  next
    case False
    have m: "n mod 10 < 10" by simp
    have "nat_to_string n = nat_to_string (n div 10) @ [digit_char (n mod 10)]"
      using False by (subst nat_to_string.simps) simp
    then show ?thesis
      using 1 False by (simp add: digitsValue_snoc radixDigit_digit_char [OF m])
  qed
qed

lemma nat_to_string_nonempty: "nat_to_string k \<noteq> []"
  by (subst nat_to_string.simps) simp

lemma parseInt_nat_to_string: "parseInt (nat_to_string k) = Some (int k)"
  using parseInt_decimal [OF nat_to_string_nonempty nat_to_string_digits, of k]
  by (simp add: digitsValue_nat_to_string)

lemma no_dot_in_digits: "CHR ''.'' \<notin> set (nat_to_string k)"
  using nat_to_string_digits [of k] by auto

lemma decimal_suffix_index:
  assumes "CHR ''.'' \<notin> set d"
  shows "stepIndex (d @ ''.'' @ nat_to_string k) n = (if k < n then Some k else None)"
proof (cases "k < n")
  case True
  then show ?thesis
    using stepIndex_suffix [OF assms, of "nat_to_string k" n k]
    by (simp add: no_dot_in_digits parseInt_nat_to_string)
next
  case False
  have "stepIndex (d @ ''.'' @ nat_to_string k) n \<noteq> Some i" for i
    using stepIndex_suffix [OF assms, of "nat_to_string k" n i] False
    by (auto simp add: parseInt_nat_to_string)
  then show ?thesis using False by (cases "stepIndex (d @ ''.'' @ nat_to_string k) n") auto
qed

text \<open>
  Against claim C4 as stated: beside the document \<open>v1.2.cook\<close> the sibling
  \<open>v1.2.0.png\<close> has an accepted extension and the base name of the document followed by
  \<open>.0\<close>, yet it binds nothing for a recipe of one step; and beside \<open>recipe.cook\<close> the
  sibling \<open>recipe.0abc.png\<close>, whose suffix is no numeral, binds as the image of step 0.
\<close>

theorem dotted_or_malformed_counterexample:
  "acceptedExtension dottedStep0 \<and> name dottedStep0 \<noteq> name dottedDoc
   \<and> basename dottedStep0 = basename dottedDoc @ ''.'' @ ''0''
   \<and> parseInt ''0'' = Some 0
   \<and> bindingTarget dottedDoc 1 dottedStep0 = None
   \<and> isOtherFile recipeDoc (TFile recipe0abcPng)
   \<and> basename recipe0abcPng = basename recipeDoc @ ''.'' @ ''0abc''
   \<and> bindingTarget recipeDoc 2 recipe0abcPng = Some (StepImage 0)"
  by code_simp

lemma bindFile_length: "length (steps (bindFile doc f r)) = length (steps r)"
  by (simp add: bindFile_def split: option.split binding.split)

lemma bindFile_step:
  "i < length (steps r) \<Longrightarrow>
   st_image (steps (bindFile doc f r) ! i) =
     (if bindingTarget doc (length (steps r)) f = Some (StepImage i) then Some f
      else st_image (steps r ! i))"
  by (auto simp add: bindFile_def nth_list_update split: option.split binding.split)

lemma bindFile_main:
  "recipeImage (bindFile doc f r) =
     (if bindingTarget doc (length (steps r)) f = Some MainImage then Some f else recipeImage r)"
  by (auto simp add: bindFile_def split: option.split binding.split)

lemma fold_bindFile_length: "length (steps (fold (bindFile doc) fs r)) = length (steps r)"
  by (induction fs arbitrary: r) (simp_all add: bindFile_length)

lemma fold_bindFile_step:
  "i < length (steps r) \<Longrightarrow>
   st_image (steps (fold (bindFile doc) fs r) ! i) =
     (case filter (\<lambda>f. bindingTarget doc (length (steps r)) f = Some (StepImage i)) fs of
        [] \<Rightarrow> st_image (steps r ! i)
      | g # gs \<Rightarrow> Some (last (g # gs)))"
proof (induction fs arbitrary: r)
  case Nil
  then show ?case by simp
next
  case (Cons x xs)
  have l: "length (steps (bindFile doc x r)) = length (steps r)" by (rule bindFile_length)
  have i: "i < length (steps (bindFile doc x r))" using Cons.prems l by simp
  show ?case
    using Cons.IH [OF i] bindFile_step [OF Cons.prems, of doc x]
    by (simp add: l split: list.split)
qed

lemma fold_bindFile_main:
  "recipeImage (fold (bindFile doc) fs r) =
     (case filter (\<lambda>f. bindingTarget doc (length (steps r)) f = Some MainImage) fs of
        [] \<Rightarrow> recipeImage r
      | g # gs \<Rightarrow> Some (last (g # gs)))"
proof (induction fs arbitrary: r)
  case Nil
  then show ?case by simp
next
  case (Cons x xs)
  have l: "length (steps (bindFile doc x r)) = length (steps r)" by (rule bindFile_length)
  show ?case
    using Cons.IH [of "bindFile doc x r"] bindFile_main [of doc x r]
    by (simp add: l split: list.split)
qed

lemma bindFile_parts:
  "st_text (steps (bindFile doc f r) ! i) = st_text (steps r ! i) \<and>
   st_line (steps (bindFile doc f r) ! i) = st_line (steps r ! i)"
proof (cases "bindingTarget doc (length (steps r)) f")
  case None
  then show ?thesis by (simp add: bindFile_def)
next
  case (Some b)
  show ?thesis
  proof (cases b)
    case MainImage
    with Some show ?thesis by (simp add: bindFile_def)
  next
    case (StepImage k)
    show ?thesis
    proof (cases "k < length (steps r) \<and> i = k")
      case True
      with Some StepImage show ?thesis by (simp add: bindFile_def)
    next
      case False
      with Some StepImage show ?thesis
        by (cases "k < length (steps r)") (auto simp add: bindFile_def list_update_beyond)
    qed
  qed
qed

lemma set_otherFiles:
  "set (otherFiles (Some doc) (Some chn)) = {f. TFile f \<in> set chn \<and> isOtherFile doc (TFile f)}"
proof -
  have "\<And>a. set (case a of TFile f \<Rightarrow> [f] | TFolder d \<Rightarrow> []) = {f. a = TFile f}"
    by (auto split: tabstract_file.split)
  then show ?thesis by auto
qed

lemma fold_bindFile_parts:
  "st_text (steps (fold (bindFile doc) fs r) ! i) = st_text (steps r ! i) \<and>
   st_line (steps (fold (bindFile doc) fs r) ! i) = st_line (steps r ! i)"
  by (induction fs arbitrary: r) (simp_all add: bindFile_parts)

lemma bindImages_fold:
  "bindImages (Some doc) (Some chn) r = fold (bindFile doc) (otherFiles (Some doc) (Some chn)) r"
  by (simp add: bindImages_def)

text \<open>
  Claim C4, amended. For a document whose base name has no dot, a sibling file binds as the
  image of step \<open>i\<close> iff it is not the document, has an accepted extension, and its base name
  is the base name of the document, a dot, and a suffix without a dot that \<open>parseInt\<close> reads
  as \<open>i\<close>, with \<open>i\<close> below the number of steps; \<open>parseInt\<close> skips leading white space,
  reads the leading numeral of the suffix and ignores what follows it. A suffix that is the
  decimal numeral of \<open>k\<close> binds step \<open>k\<close> when \<open>k\<close> is below the number of steps and binds
  nothing otherwise. The loop over the siblings keeps the steps and their parts, and leaves as
  the image of step \<open>i\<close> the last sibling, in the order of the folder, that binds to step
  \<open>i\<close>, or the image the step had when no sibling does; likewise for the main image. No case
  is an error. For \<open>recipe.jpg\<close>, \<open>recipe.0.png\<close> and \<open>recipe.3.gif\<close> beside a recipe of
  two steps, the bindings are the main image and the image of step 0 only.
\<close>

theorem step_image_binding:
  "(CHR ''.'' \<notin> set (basename doc) \<longrightarrow>
      ((isOtherFile doc (TFile f) \<and> bindingTarget doc n f = Some (StepImage i)) \<longleftrightarrow>
       (name f \<noteq> name doc \<and> acceptedExtension f \<and> i < n \<and>
        (\<exists>N. basename f = basename doc @ ''.'' @ N \<and> CHR ''.'' \<notin> set N \<and>
             parseInt N = Some (int i)))))
   \<and> (CHR ''.'' \<notin> set (basename doc) \<and> acceptedExtension f
        \<and> basename f = basename doc @ ''.'' @ nat_to_string k \<longrightarrow>
        bindingTarget doc n f = (if k < n then Some (StepImage k) else None))
   \<and> set (otherFiles (Some doc) (Some chn)) = {g. TFile g \<in> set chn \<and> isOtherFile doc (TFile g)}
   \<and> length (steps (bindImages (Some doc) (Some chn) r)) = length (steps r)
   \<and> (i < length (steps r) \<longrightarrow>
        st_image (steps (bindImages (Some doc) (Some chn) r) ! i) =
          (case filter (\<lambda>g. bindingTarget doc (length (steps r)) g = Some (StepImage i))
                  (otherFiles (Some doc) (Some chn)) of
             [] \<Rightarrow> st_image (steps r ! i)
           | g # gs \<Rightarrow> Some (last (g # gs)))
        \<and> st_text (steps (bindImages (Some doc) (Some chn) r) ! i) = st_text (steps r ! i)
        \<and> st_line (steps (bindImages (Some doc) (Some chn) r) ! i) = st_line (steps r ! i))
   \<and> recipeImage (bindImages (Some doc) (Some chn) r) =
        (case filter (\<lambda>g. bindingTarget doc (length (steps r)) g = Some MainImage)
                (otherFiles (Some doc) (Some chn)) of
           [] \<Rightarrow> recipeImage r
         | g # gs \<Rightarrow> Some (last (g # gs)))
   \<and> recipeImage (bindImages (Some recipeDoc) (Some recipeFolder) twoStepRecipe) = Some recipeJpg
   \<and> map st_image (steps (bindImages (Some recipeDoc) (Some recipeFolder) twoStepRecipe)) =
       [Some recipe0Png, None]"
proof -
  have 1: "CHR ''.'' \<notin> set (basename doc) \<longrightarrow>
      ((isOtherFile doc (TFile f) \<and> bindingTarget doc n f = Some (StepImage i)) \<longleftrightarrow>
       (name f \<noteq> name doc \<and> acceptedExtension f \<and> i < n \<and>
        (\<exists>N. basename f = basename doc @ ''.'' @ N \<and> CHR ''.'' \<notin> set N \<and>
             parseInt N = Some (int i))))"
    using step_binding_iff [of doc f n i] by blast
  have 2: "CHR ''.'' \<notin> set (basename doc) \<and> acceptedExtension f
        \<and> basename f = basename doc @ ''.'' @ nat_to_string k \<longrightarrow>
        bindingTarget doc n f = (if k < n then Some (StepImage k) else None)"
  proof (intro impI, elim conjE)
    assume d: "CHR ''.'' \<notin> set (basename doc)" and a: "acceptedExtension f"
      and b: "basename f = basename doc @ ''.'' @ nat_to_string k"
    have "basename f \<noteq> basename doc" using b by simp
    then show "bindingTarget doc n f = (if k < n then Some (StepImage k) else None)"
      using a b decimal_suffix_index [OF d, of k n] by (simp add: bindingTarget_def)
  qed
  have 3: "set (otherFiles (Some doc) (Some chn)) =
      {g. TFile g \<in> set chn \<and> isOtherFile doc (TFile g)}"
    by (rule set_otherFiles)
  have 4: "length (steps (bindImages (Some doc) (Some chn) r)) = length (steps r)"
    unfolding bindImages_fold by (rule fold_bindFile_length)
  have 5: "i < length (steps r) \<longrightarrow>
        st_image (steps (bindImages (Some doc) (Some chn) r) ! i) =
          (case filter (\<lambda>g. bindingTarget doc (length (steps r)) g = Some (StepImage i))
                  (otherFiles (Some doc) (Some chn)) of
             [] \<Rightarrow> st_image (steps r ! i)
           | g # gs \<Rightarrow> Some (last (g # gs)))
        \<and> st_text (steps (bindImages (Some doc) (Some chn) r) ! i) = st_text (steps r ! i)
        \<and> st_line (steps (bindImages (Some doc) (Some chn) r) ! i) = st_line (steps r ! i)"
    unfolding bindImages_fold
    using fold_bindFile_step [of i r doc "otherFiles (Some doc) (Some chn)"]
      fold_bindFile_parts [of doc "otherFiles (Some doc) (Some chn)" r i]
    by blast
  have 6: "recipeImage (bindImages (Some doc) (Some chn) r) =
        (case filter (\<lambda>g. bindingTarget doc (length (steps r)) g = Some MainImage)
                (otherFiles (Some doc) (Some chn)) of
           [] \<Rightarrow> recipeImage r
         | g # gs \<Rightarrow> Some (last (g # gs)))"
    unfolding bindImages_fold by (rule fold_bindFile_main)
  have 7: "recipeImage (bindImages (Some recipeDoc) (Some recipeFolder) twoStepRecipe) = Some recipeJpg"
    "map st_image (steps (bindImages (Some recipeDoc) (Some recipeFolder) twoStepRecipe)) =
       [Some recipe0Png, None]"
    by code_simp+
  show ?thesis
    using 1 2 3 4 5 6 7 by blast
qed

theorem step_image_binding_witness:
  "CHR ''.'' \<notin> set (basename recipeDoc)
   \<and> isOtherFile recipeDoc (TFile recipe0Png)
   \<and> bindingTarget recipeDoc 2 recipe0Png = Some (StepImage 0)
   \<and> (\<exists>N. basename recipe0Png = basename recipeDoc @ ''.'' @ N \<and> CHR ''.'' \<notin> set N \<and>
          parseInt N = Some (int 0))
   \<and> acceptedExtension recipe3Gif
   \<and> basename recipe3Gif = basename recipeDoc @ ''.'' @ nat_to_string 3
   \<and> bindingTarget recipeDoc 2 recipe3Gif = None
   \<and> 1 < length (steps twoStepRecipe)
   \<and> st_image (steps (bindImages (Some recipeDoc) (Some crowdedFolder) twoStepRecipe) ! 1) =
       Some recipe1Gif
   \<and> st_line (steps (bindImages (Some recipeDoc) (Some crowdedFolder) twoStepRecipe) ! 1) =
       st_line (steps twoStepRecipe ! 1)
   \<and> parseInt ([CHR 0xC2, CHR 0xA0] @ ''1'') = Some (int 1)
   \<and> bindingTarget recipeDoc 2 recipeNbsp1Png = Some (StepImage 1)"
proof -
  have d: "CHR ''.'' \<notin> set (basename recipeDoc)"
    by code_simp
  have w: "name recipeNbsp1Png \<noteq> name recipeDoc" "acceptedExtension recipeNbsp1Png" "(1 :: nat) < 2"
    "basename recipeNbsp1Png = basename recipeDoc @ ''.'' @ ([CHR 0xC2, CHR 0xA0] @ ''1'')"
    "CHR ''.'' \<notin> set ([CHR 0xC2, CHR 0xA0] @ ''1'')"
    "parseInt ([CHR 0xC2, CHR 0xA0] @ ''1'') = Some (int 1)"
    by code_simp+
  have v: "bindingTarget recipeDoc 2 recipeNbsp1Png = Some (StepImage 1)"
    using step_image_binding [of recipeDoc recipeNbsp1Png 2 1 3 recipeFolder twoStepRecipe] d w
    by blast
  have l: "isOtherFile recipeDoc (TFile recipe0Png)"
    "bindingTarget recipeDoc 2 recipe0Png = Some (StepImage 0)"
    by code_simp+
  have g: "acceptedExtension recipe3Gif"
    "basename recipe3Gif = basename recipeDoc @ ''.'' @ nat_to_string 3"
    by code_simp+
  have n: "1 < length (steps twoStepRecipe)"
    by code_simp
  have b: "filter (\<lambda>g. bindingTarget recipeDoc (length (steps twoStepRecipe)) g = Some (StepImage 1))
       (otherFiles (Some recipeDoc) (Some crowdedFolder)) = [recipe1Png, recipe1Gif]"
    by code_simp
  have s: "st_image (steps (bindImages (Some recipeDoc) (Some crowdedFolder) twoStepRecipe) ! 1) =
          (case filter (\<lambda>g. bindingTarget recipeDoc (length (steps twoStepRecipe)) g = Some (StepImage 1))
                  (otherFiles (Some recipeDoc) (Some crowdedFolder)) of
             [] \<Rightarrow> st_image (steps twoStepRecipe ! 1)
           | g # gs \<Rightarrow> Some (last (g # gs)))
        \<and> st_line (steps (bindImages (Some recipeDoc) (Some crowdedFolder) twoStepRecipe) ! 1) =
            st_line (steps twoStepRecipe ! 1)"
    using step_image_binding [of recipeDoc recipe1Gif 2 1 3 crowdedFolder twoStepRecipe] n
    by blast
  then have t: "st_image (steps (bindImages (Some recipeDoc) (Some crowdedFolder) twoStepRecipe) ! 1) =
       Some recipe1Gif"
    unfolding b by simp
  show ?thesis
    using step_image_binding [of recipeDoc recipe0Png 2 0 3 recipeFolder twoStepRecipe]
      step_image_binding [of recipeDoc recipe3Gif 2 0 3 recipeFolder twoStepRecipe] d l g n s t
      w(6) v
    by auto
qed

end
